theory Spec2Isabelle
  imports Main
begin

section \<open>JavaScript values\<close>

text \<open>
  The client library \<^verbatim>\<open>azuqua.js\<close> is dynamically typed, so the model carries a type of
  JavaScript values. A JavaScript string is a \<open>string\<close>: each \<open>char\<close> stands for the
  UTF-16 code unit of the same number, so the model covers the strings whose code units are
  below 256. A number is an \<open>int\<close>: the model covers the integer-valued numbers that
  JavaScript prints in plain decimal notation (magnitude below \<open>10^21\<close>, no negative zero).
  A value of type \<open>jsval\<close> is a piece of data as \<^verbatim>\<open>JSON.parse\<close> or an object literal
  builds it: an object \<open>JObj\<close> is a plain object, whose prototype is
  \<^verbatim>\<open>Object.prototype\<close>, given by the list of its own properties in enumeration order
  (array indices first, in ascending order, then the other keys in the order of their
  creation), with distinct keys. Functions, symbols and cyclic objects are not values of
  this type. The cache of the client is the one object whose properties the client reads
  under names that it does not choose; it is modelled with its prototype chain, and the
  members of \<^verbatim>\<open>Object.prototype\<close> and \<^verbatim>\<open>Array.prototype\<close> that such a read can return are the
  values of the type \<open>member\<close> below.
\<close>

datatype jsval =
    JUndefined
  | JNull
  | JBool bool
  | JNum int
  | JStr string
  | JArr "jsval list"
  | JObj "(string \<times> jsval) list"

text \<open>\<^verbatim>\<open>!v\<close> is \<open>\<not> truthy v\<close>.\<close>

fun truthy :: "jsval \<Rightarrow> bool" where
  "truthy JUndefined = False"
| "truthy JNull = False"
| "truthy (JBool b) = b"
| "truthy (JNum n) = (n \<noteq> 0)"
| "truthy (JStr s) = (s \<noteq> [])"
| "truthy (JArr xs) = True"
| "truthy (JObj kvs) = True"

text \<open>\<^verbatim>\<open>typeof v === "object"\<close>; it holds of \<^verbatim>\<open>null\<close> too.\<close>

fun typeof_object :: "jsval \<Rightarrow> bool" where
  "typeof_object JNull = True"
| "typeof_object (JArr xs) = True"
| "typeof_object (JObj kvs) = True"
| "typeof_object v = False"

subsection \<open>Strings\<close>

definition digit_char :: "nat \<Rightarrow> char" where
  "digit_char d = char_of (48 + d)"

fun dec_nat :: "nat \<Rightarrow> string" where
  "dec_nat n = (if n < 10 then [digit_char n] else dec_nat (n div 10) @ [digit_char (n mod 10)])"

declare dec_nat.simps [simp del]

definition dec_int :: "int \<Rightarrow> string" where
  "dec_int i = (if i < 0 then CHR ''-'' # dec_nat (nat (- i)) else dec_nat (nat i))"

fun join :: "string \<Rightarrow> string list \<Rightarrow> string" where
  "join sep [] = []"
| "join sep [x] = x"
| "join sep (x # y # ys) = x @ sep @ join sep (y # ys)"

text \<open>
  The string a value is converted to when it is concatenated to a string, used as a property
  key or passed to a function that expects a string (\<^verbatim>\<open>ToString\<close>). Inside an array,
  \<^verbatim>\<open>null\<close> and \<^verbatim>\<open>undefined\<close> print as the empty string. A plain object prints as
  \<^verbatim>\<open>[object Object]\<close>, through \<^verbatim>\<open>Object.prototype.toString\<close>.
\<close>

fun to_string :: "jsval \<Rightarrow> string" where
  "to_string JUndefined = ''undefined''"
| "to_string JNull = ''null''"
| "to_string (JBool b) = (if b then ''true'' else ''false'')"
| "to_string (JNum n) = dec_int n"
| "to_string (JStr s) = s"
| "to_string (JArr xs) =
     join '','' (map (\<lambda>x. if x = JUndefined \<or> x = JNull then [] else to_string x) xs)"
| "to_string (JObj kvs) = ''[object Object]''"

text \<open>
  The conversion calls the method \<^verbatim>\<open>toString\<close> of an object. An object with an own property
  of that name hides \<^verbatim>\<open>Object.prototype.toString\<close> behind a value that is no function;
  the conversion then tries \<^verbatim>\<open>valueOf\<close>, which gives no primitive value, and throws a
  \<^verbatim>\<open>TypeError\<close>. An array converts its elements, so it throws when one of them does.
  \<open>ToString\<close> is the conversion with this case: \<open>None\<close> when it throws. The request
  builder below is written with \<open>to_string\<close>; \<open>ToString\<close> is used wherever the cache and
  the invoker convert a value.
\<close>

fun converts :: "jsval \<Rightarrow> bool" where
  "converts (JObj kvs) = (''toString'' \<notin> set (map fst kvs))"
| "converts (JArr xs) = list_all converts xs"
| "converts v = True"

definition ToString :: "jsval \<Rightarrow> string option" where
  "ToString v = (if converts v then Some (to_string v) else None)"

text \<open>
  An array index is the decimal numeral, without a sign or a leading zero, of a number
  below \<open>2^32 - 1\<close>. \<open>array_index\<close> reads it; the result is \<open>None\<close> for every other key.
\<close>

definition digit_of :: "char \<Rightarrow> nat option" where
  "digit_of ch =
     (let n = (of_char ch :: nat) in if 48 \<le> n \<and> n \<le> 57 then Some (n - 48) else None)"

fun numeral_of :: "nat \<Rightarrow> string \<Rightarrow> nat option" where
  "numeral_of acc [] = Some acc"
| "numeral_of acc (ch # cs) =
     (case digit_of ch of None \<Rightarrow> None | Some d \<Rightarrow> numeral_of (10 * acc + d) cs)"

definition array_index :: "string \<Rightarrow> nat option" where
  "array_index k =
     (if k = [] \<or> (hd k = CHR ''0'' \<and> k \<noteq> ''0'') then None
      else (case numeral_of 0 k of
              None \<Rightarrow> None
            | Some i \<Rightarrow> if i < 2 ^ 32 - 1 then Some i else None))"

text \<open>\<^verbatim>\<open>String.prototype.toLowerCase\<close> on code units below 256.\<close>

definition lower_char :: "char \<Rightarrow> char" where
  "lower_char c =
     (let n = (of_char c :: nat)
      in if (65 \<le> n \<and> n \<le> 90) \<or> (192 \<le> n \<and> n \<le> 222 \<and> n \<noteq> 215)
         then char_of (n + 32) else c)"

definition toLowerCase :: "string \<Rightarrow> string" where
  "toLowerCase s = map lower_char s"

definition hex_upper :: "nat \<Rightarrow> char" where
  "hex_upper d = (if d < 10 then char_of (48 + d) else char_of (55 + d))"

definition hex_lower :: "nat \<Rightarrow> char" where
  "hex_lower d = (if d < 10 then char_of (48 + d) else char_of (87 + d))"

definition percent_byte :: "nat \<Rightarrow> string" where
  "percent_byte b = [CHR ''%'', hex_upper (b div 16), hex_upper (b mod 16)]"

text \<open>
  \<^verbatim>\<open>encodeURIComponent\<close>: letters, digits and \<^verbatim>\<open>- _ . ! ~ * ' ( )\<close> are kept, every other
  code unit is written as the percent-encoded bytes of its UTF-8 form.
\<close>

definition uri_unreserved :: "char \<Rightarrow> bool" where
  "uri_unreserved c =
     (let n = (of_char c :: nat)
      in (65 \<le> n \<and> n \<le> 90) \<or> (97 \<le> n \<and> n \<le> 122) \<or> (48 \<le> n \<and> n \<le> 57)
         \<or> n \<in> {45, 95, 46, 33, 126, 42, 39, 40, 41})"

definition encode_char :: "char \<Rightarrow> string" where
  "encode_char c =
     (let n = (of_char c :: nat)
      in if uri_unreserved c then [c]
         else if n < 128 then percent_byte n
         else percent_byte (192 + n div 64) @ percent_byte (128 + n mod 64))"

definition encodeURIComponent :: "jsval \<Rightarrow> string" where
  "encodeURIComponent v = concat (map encode_char (to_string v))"

text \<open>\<^verbatim>\<open>Buffer.byteLength\<close> of a string: the length of its UTF-8 form.\<close>

definition byteLength :: "string \<Rightarrow> nat" where
  "byteLength s = sum_list (map (\<lambda>c. if (of_char c :: nat) < 128 then 1 else 2) s)"

subsection \<open>JSON text\<close>

definition json_escape :: "char \<Rightarrow> string" where
  "json_escape c =
     (let n = (of_char c :: nat)
      in if n = 34 then [CHR 0x5C, CHR 0x22]
         else if n = 92 then [CHR 0x5C, CHR 0x5C]
         else if n = 8 then [CHR 0x5C, CHR ''b'']
         else if n = 9 then [CHR 0x5C, CHR ''t'']
         else if n = 10 then [CHR 0x5C, CHR ''n'']
         else if n = 12 then [CHR 0x5C, CHR ''f'']
         else if n = 13 then [CHR 0x5C, CHR ''r'']
         else if n < 32 then [CHR 0x5C, CHR ''u'', CHR ''0'', CHR ''0'',
                              hex_lower (n div 16), hex_lower (n mod 16)]
         else [c])"

definition json_quote :: "string \<Rightarrow> string" where
  "json_quote s = CHR 0x22 # concat (map json_escape s) @ [CHR 0x22]"

text \<open>
  \<^verbatim>\<open>JSON.stringify\<close>. The result \<open>None\<close> is JavaScript's \<^verbatim>\<open>undefined\<close>, which is what
  \<^verbatim>\<open>JSON.stringify(undefined)\<close> returns. A property whose value is \<^verbatim>\<open>undefined\<close> is left
  out of an object, and an \<^verbatim>\<open>undefined\<close> element of an array is written \<^verbatim>\<open>null\<close>.
\<close>

fun JSON_stringify :: "jsval \<Rightarrow> string option" where
  "JSON_stringify JUndefined = None"
| "JSON_stringify JNull = Some ''null''"
| "JSON_stringify (JBool b) = Some (if b then ''true'' else ''false'')"
| "JSON_stringify (JNum n) = Some (dec_int n)"
| "JSON_stringify (JStr s) = Some (json_quote s)"
| "JSON_stringify (JArr xs) =
     Some (''['' @ join '',''
       (map (\<lambda>x. case JSON_stringify x of None \<Rightarrow> ''null'' | Some t \<Rightarrow> t) xs) @ '']'')"
| "JSON_stringify (JObj kvs) =
     Some (''{'' @ join '',''
       (concat (map (\<lambda>kv. case JSON_stringify (snd kv) of None \<Rightarrow> []
                              | Some t \<Rightarrow> [json_quote (fst kv) @ '':'' @ t]) kvs)) @ ''}'')"

text \<open>The value of the expression \<^verbatim>\<open>JSON.stringify(v)\<close>.\<close>

definition stringify_val :: "jsval \<Rightarrow> jsval" where
  "stringify_val v = (case JSON_stringify v of None \<Rightarrow> JUndefined | Some t \<Rightarrow> JStr t)"

subsection \<open>Inherited members\<close>

text \<open>
  What a plain object inherits from \<^verbatim>\<open>Object.prototype\<close>: the function \<^verbatim>\<open>Object\<close> under the
  name \<^verbatim>\<open>constructor\<close>, ten methods, and the accessor \<^verbatim>\<open>__proto__\<close>, which returns the
  prototype of the object it is read from; \<open>Object_prototype\<close> is the object
  \<^verbatim>\<open>Object.prototype\<close> itself. An object whose prototype is an array inherits the function
  \<^verbatim>\<open>Array\<close> under the name \<^verbatim>\<open>constructor\<close> and the methods of \<^verbatim>\<open>Array.prototype\<close>.
\<close>

datatype member =
    Object_constructor
  | Object_toString
  | Object_toLocaleString
  | Object_valueOf
  | Object_hasOwnProperty
  | Object_isPrototypeOf
  | Object_propertyIsEnumerable
  | Object_defineGetter
  | Object_defineSetter
  | Object_lookupGetter
  | Object_lookupSetter
  | Object_prototype
  | Array_constructor
  | Array_method string

definition object_member :: "string \<Rightarrow> member option" where
  "object_member k =
     map_of [(''constructor'', Object_constructor),
             (''toString'', Object_toString),
             (''toLocaleString'', Object_toLocaleString),
             (''valueOf'', Object_valueOf),
             (''hasOwnProperty'', Object_hasOwnProperty),
             (''isPrototypeOf'', Object_isPrototypeOf),
             (''propertyIsEnumerable'', Object_propertyIsEnumerable),
             (''__defineGetter__'', Object_defineGetter),
             (''__defineSetter__'', Object_defineSetter),
             (''__lookupGetter__'', Object_lookupGetter),
             (''__lookupSetter__'', Object_lookupSetter)] k"

text \<open>
  A value that the client handles as a workflow name or as an alias: a value \<open>Val v\<close>
  that is not one of the objects of the cache, an object or array \<open>Held p v\<close> that the
  cache holds at the place \<open>p\<close> (its own property of that name, the property of that name
  of its prototype, or its prototype), or an inherited member. The place stands for the
  identity of the object: \<^verbatim>\<open>===\<close> compares objects by identity, and the objects that
  \<^verbatim>\<open>JSON.parse\<close> builds are all different.
\<close>

datatype place = Own string | Chain string | Parent

datatype fval = Val jsval | Held place jsval | Member member

fun held :: "place \<Rightarrow> jsval \<Rightarrow> fval" where
  "held p (JObj kvs) = Held p (JObj kvs)"
| "held p (JArr xs) = Held p (JArr xs)"
| "held p v = Val v"

fun truthy_f :: "fval \<Rightarrow> bool" where
  "truthy_f (Val v) = truthy v"
| "truthy_f (Held p v) = truthy v"
| "truthy_f (Member m) = True"

text \<open>
  \<^verbatim>\<open>a === b\<close> where \<open>a\<close> was read from the cache: primitive values are compared by value
  (the numbers of the model do not include \<^verbatim>\<open>NaN\<close>), objects by identity.
\<close>

fun strict_eq :: "fval \<Rightarrow> fval \<Rightarrow> bool" where
  "strict_eq (Val a) (Val b) = (a = b \<and> \<not> (typeof_object a \<and> a \<noteq> JNull))"
| "strict_eq (Held p a) (Held q b) = (p = q \<and> a = b)"
| "strict_eq (Member m) (Member n) = (m = n)"
| "strict_eq a b = False"

text \<open>
  An object that was read from the cache is no object of the cache that replaces it.
\<close>

fun stale :: "fval \<Rightarrow> fval" where
  "stale (Held p v) = Val v"
| "stale a = a"

section \<open>The signer\<close>

text \<open>
  \<^verbatim>\<open>signData(accessSecret, data, verb, path, timestamp)\<close>. The digest
  \<^verbatim>\<open>crypto.createHmac("sha256", key).update(msg).digest("hex")\<close> belongs to Node's
  \<^verbatim>\<open>crypto\<close> module, not to this repository; it is the parameter \<open>hmac\<close>, a function
  of the key and the message. \<open>signed_message\<close> is the string \<^verbatim>\<open>meta + data\<close> that
  \<^verbatim>\<open>signData\<close> passes to \<^verbatim>\<open>update\<close>.
\<close>

definition signed_message :: "jsval \<Rightarrow> string \<Rightarrow> string \<Rightarrow> string \<Rightarrow> string" where
  "signed_message data verb path timestamp =
     (let data1 = (if \<not> truthy data then JStr []
                   else if typeof_object data then stringify_val data
                   else data);
          meta = join '':'' [toLowerCase verb, path, timestamp]
      in meta @ to_string data1)"

definition signData ::
  "(string \<Rightarrow> string \<Rightarrow> string) \<Rightarrow> string \<Rightarrow> jsval \<Rightarrow> string \<Rightarrow> string \<Rightarrow> string \<Rightarrow> string" where
  "signData hmac accessSecret data verb path timestamp =
     hmac accessSecret (signed_message data verb path timestamp)"


section \<open>The request builder\<close>

text \<open>
  \<^verbatim>\<open>addGetParameter(path, key, value)\<close>; \<^verbatim>\<open>path.indexOf("?") > -1\<close> holds when the path
  contains a question mark.
\<close>

definition addGetParameter :: "string \<Rightarrow> jsval \<Rightarrow> jsval \<Rightarrow> string" where
  "addGetParameter path key val =
     (let delimiter = (if CHR ''?'' \<in> set path then ''&'' else ''?'')
      in path @ delimiter @ encodeURIComponent key @ ''='' @ encodeURIComponent val)"

text \<open>
  Reading and writing an own property of an object (an association list). A read with
  \<open>obj_get\<close> is the read of the source where the name is none that a plain object
  inherits: the headers of a request, the properties \<^verbatim>\<open>error\<close>, \<^verbatim>\<open>name\<close> and \<^verbatim>\<open>alias\<close>
  of a parsed value, and \<^verbatim>\<open>length\<close> and the indices of a parameter object. The reads of
  the cache, under names that the caller and the server choose, are those of \<open>cache_get\<close>
  below. The client writes the headers with \<open>obj_set\<close>, under names that are no array
  indices, so that a new header is the last property.
\<close>

definition obj_get :: "(string \<times> jsval) list \<Rightarrow> string \<Rightarrow> jsval" where
  "obj_get kvs k = (case map_of kvs k of None \<Rightarrow> JUndefined | Some v \<Rightarrow> v)"

fun obj_set :: "(string \<times> jsval) list \<Rightarrow> string \<Rightarrow> jsval \<Rightarrow> (string \<times> jsval) list" where
  "obj_set [] k v = [(k, v)]"
| "obj_set (p # ps) k v = (if fst p = k then (k, v) # ps else p # obj_set ps k v)"

text \<open>
  The property read \<^verbatim>\<open>v.k\<close> for the names the client reads (\<^verbatim>\<open>error\<close>, \<^verbatim>\<open>name\<close>,
  \<^verbatim>\<open>alias\<close>): a \<^verbatim>\<open>TypeError\<close> (\<open>None\<close>) on \<^verbatim>\<open>null\<close> and \<^verbatim>\<open>undefined\<close>, the property
  of an object, and \<^verbatim>\<open>undefined\<close> on every other value. No prototype defines a property
  of one of these three names, so the own property is what the read returns.
\<close>

fun get_prop :: "jsval \<Rightarrow> string \<Rightarrow> jsval option" where
  "get_prop JUndefined k = None"
| "get_prop JNull k = None"
| "get_prop (JObj kvs) k = Some (obj_get kvs k)"
| "get_prop v k = Some JUndefined"

text \<open>
  \<^verbatim>\<open>Object.keys(v).length\<close> for a truthy value (ECMAScript 2015 and later, where a primitive
  is converted to an object first): the number of own enumerable keys.
\<close>

fun object_keys_length :: "jsval \<Rightarrow> nat" where
  "object_keys_length (JObj kvs) = length kvs"
| "object_keys_length (JArr xs) = length xs"
| "object_keys_length (JStr s) = length s"
| "object_keys_length v = 0"

text \<open>
  The test of underscore (release 1.8 and later) for a collection that it iterates by
  index: the property \<^verbatim>\<open>length\<close> is a number from \<open>0\<close> to \<open>2^53 - 1\<close>. Earlier
  releases iterate by index whenever that property is a number; all releases iterate a
  collection whose \<^verbatim>\<open>length\<close> is no number by its keys.
\<close>

fun is_number :: "jsval \<Rightarrow> bool" where
  "is_number (JNum n) = True"
| "is_number v = False"

fun array_like_length :: "jsval \<Rightarrow> nat option" where
  "array_like_length (JNum n) = (if 0 \<le> n \<and> n \<le> 2 ^ 53 - 1 then Some (nat n) else None)"
| "array_like_length v = None"

text \<open>
  The argument pairs that underscore's \<^verbatim>\<open>_.each(obj, iterator)\<close> passes to its iterator,
  in order: \<^verbatim>\<open>iterator(element, index)\<close> for each element of an array or character of a
  string, \<^verbatim>\<open>iterator(obj[i], i)\<close> for each index below the length of an object that passes
  the test above, and \<^verbatim>\<open>iterator(value, key)\<close> for each property of any other object.
\<close>

fun each_args :: "jsval \<Rightarrow> (jsval \<times> jsval) list" where
  "each_args (JObj kvs) =
     (case array_like_length (obj_get kvs ''length'') of
        Some n \<Rightarrow> map (\<lambda>i. (obj_get kvs (dec_nat i), JNum (int i))) [0..<n]
      | None \<Rightarrow> map (\<lambda>kv. (snd kv, JStr (fst kv))) kvs)"
| "each_args (JArr xs) = zip xs (map (\<lambda>i. JNum (int i)) [0..<length xs])"
| "each_args (JStr s) = zip (map (\<lambda>ch. JStr [ch]) s) (map (\<lambda>i. JNum (int i)) [0..<length s])"
| "each_args v = []"

record credentials =
  accessKey :: "string option"
  accessSecret :: "string option"

text \<open>The two fields of \<^verbatim>\<open>options\<close> the caller chooses; \<^verbatim>\<open>makeRequest\<close> overwrites the rest.\<close>

record options =
  opt_path :: string
  opt_method :: string

record request =
  req_host :: string
  req_port :: nat
  req_path :: string
  req_method :: string
  req_headers :: "(string \<times> jsval) list"
  req_body :: jsval

text \<open>
  What the transport \<^verbatim>\<open>self.client.request\<close> (the \<^verbatim>\<open>restjs\<close> package) hands to its
  callback: an error value, which is truthy, or a response with its body text.
\<close>

datatype response = TransportError string | Response string

text \<open>
  The collaborators outside the repository: the digest, the clock
  (\<^verbatim>\<open>new Date().toISOString()\<close>), the transport, \<^verbatim>\<open>JSON.parse\<close> (\<open>None\<close> when it throws)
  and what \<^verbatim>\<open>async.each\<close> iterates when its first argument is not an array (\<open>None\<close> when
  it throws; releases of the \<^verbatim>\<open>async\<close> package differ here). The clock and the transport
  depend on the number of requests sent before. Two more belong to the JavaScript engine:
  the names of the methods of \<^verbatim>\<open>Array.prototype\<close> other than \<^verbatim>\<open>toString\<close> and
  \<^verbatim>\<open>toLocaleString\<close>, and the text that a function is converted to when it is used as a
  string.
\<close>

record world =
  digest :: "string \<Rightarrow> string \<Rightarrow> string"
  now :: "nat \<Rightarrow> string"
  transport :: "nat \<Rightarrow> request \<Rightarrow> response"
  JSON_parse :: "string \<Rightarrow> jsval option"
  each_other :: "jsval \<Rightarrow> jsval list option"
  array_member :: "string \<Rightarrow> bool"
  function_text :: "member \<Rightarrow> string"

text \<open>
  The first argument of a completion callback: an \<^verbatim>\<open>Error\<close> object with its message, the
  transport's error, or the raw body of a response.
\<close>

datatype errval = ErrorObj string | TransportErr string | RawBody string

fun truthy_err :: "errval \<Rightarrow> bool" where
  "truthy_err (RawBody s) = (s \<noteq> [])"
| "truthy_err e = True"

text \<open>
  How an operation ends: \<^verbatim>\<open>callback(e)\<close>, \<^verbatim>\<open>callback(null, v)\<close>, or an exception that
  nothing catches, so that the callback is never called.
\<close>

datatype outcome = Cb_error errval | Cb_data jsval | Uncaught string

text \<open>
  The cache \<^verbatim>\<open>self.floMap\<close>: its own properties, in enumeration order, and its prototype.
  The object literal \<^verbatim>\<open>{}\<close> has the prototype \<^verbatim>\<open>Object.prototype\<close>; an assignment to the
  property \<^verbatim>\<open>__proto__\<close> can replace it by \<^verbatim>\<open>null\<close>, by a plain object or by an array
  (see \<open>cache_set\<close> below).
\<close>

datatype proto =
    DefaultProto
  | NullProto
  | ObjProto "(string \<times> jsval) list"
  | ArrProto "jsval list"

record cache =
  own_props :: "(string \<times> jsval) list"
  prototype :: proto

definition empty_cache :: cache where
  "empty_cache = \<lparr>own_props = [], prototype = DefaultProto\<rparr>"

text \<open>
  The client object. \<open>headers\<close> is the object \<^verbatim>\<open>self.httpOptions.headers\<close>, which every
  request shares. \<open>sent\<close> and \<open>refreshes\<close> are not fields of the source: they record the
  requests handed to the transport and the number of times \<^verbatim>\<open>flos\<close> took its remote
  branch.
\<close>

record client =
  account :: "credentials option"
  floMap :: "cache option"
  headers :: "(string \<times> jsval) list"
  sent :: "request list"
  refreshes :: nat

definition missing_credentials :: "credentials option \<Rightarrow> bool" where
  "missing_credentials a =
     (case a of None \<Rightarrow> True
      | Some cr \<Rightarrow> (case accessKey cr of None \<Rightarrow> True | Some k \<Rightarrow> k = [])
                 \<or> (case accessSecret cr of None \<Rightarrow> True | Some s \<Rightarrow> s = []))"

text \<open>
  The callback that \<^verbatim>\<open>makeRequest\<close> passes to the transport. \<^verbatim>\<open>new Error(e)\<close> converts
  \<open>e\<close> to the message of the error.
\<close>

definition on_response :: "world \<Rightarrow> response \<Rightarrow> outcome" where
  "on_response w r =
     (case r of
        TransportError e \<Rightarrow> Cb_error (TransportErr e)
      | Response body \<Rightarrow>
          (case JSON_parse w body of
             None \<Rightarrow> Cb_error (RawBody body)
           | Some v \<Rightarrow>
               (case get_prop v ''error'' of
                  None \<Rightarrow> Uncaught ''TypeError''
                | Some e \<Rightarrow>
                    if truthy e
                    then (case ToString e of
                            None \<Rightarrow> Uncaught ''TypeError''
                          | Some msg \<Rightarrow> Cb_error (ErrorObj msg))
                    else Cb_data v)))"

definition normalize_params :: "jsval \<Rightarrow> jsval" where
  "normalize_params params =
     (if \<not> truthy params \<or> object_keys_length params < 1 then JStr [] else params)"

text \<open>
  \<^verbatim>\<open>makeRequest(options, params, callback)\<close>. The loop that appends the query parameters of
  a GET request converts every key and value with \<open>to_string\<close>: it is the loop of the
  source for the parameters whose values convert (\<open>converts\<close>); at a value whose conversion
  throws, the source throws inside the loop.
\<close>

definition makeRequest :: "world \<Rightarrow> client \<Rightarrow> options \<Rightarrow> jsval \<Rightarrow> client \<times> outcome" where
  "makeRequest w c opts params =
     (if missing_credentials (account c)
      then (c, Cb_error (ErrorObj ''Account information not found''))
      else
        let key = the (accessKey (the (account c)));
            secret = the (accessSecret (the (account c)));
            timestamp = now w (length (sent c));
            params1 = normalize_params params;
            hash = signData (digest w) secret params1 (opt_method opts) (opt_path opts) timestamp;
            path1 = (if opt_method opts = ''GET''
                     then foldl (\<lambda>p kv. addGetParameter p (fst kv) (snd kv))
                            (opt_path opts) (each_args params1)
                     else opt_path opts);
            params2 = (if opt_method opts = ''GET'' then params1 else stringify_val params1)
        in if opt_method opts = ''POST'' \<and> (case params2 of JStr b \<Rightarrow> False | _ \<Rightarrow> True)
           then (c, Uncaught ''TypeError'')
           else
             let h0 = (if opt_method opts = ''POST''
                       then obj_set (headers c) ''Content-Length''
                              (JNum (int (byteLength (to_string params2))))
                       else headers c);
                 h1 = obj_set h0 ''x-api-timestamp'' (JStr timestamp);
                 h2 = obj_set h1 ''x-api-hash'' (JStr hash);
                 h3 = obj_set h2 ''x-api-accessKey'' (JStr key);
                 req = \<lparr>req_host = ''api.azuqua.com'', req_port = 443, req_path = path1,
                        req_method = opt_method opts, req_headers = h3, req_body = params2\<rparr>
             in (c\<lparr>headers := h3, sent := sent c @ [req]\<rparr>,
                 on_response w (transport w (length (sent c)) req)))"


section \<open>The alias cache and the invoker\<close>

subsection \<open>Reading a property of the cache\<close>

text \<open>
  The read \<^verbatim>\<open>map[k]\<close> follows the prototype chain of the cache. \<open>object_prototype_get\<close>
  is the read at \<^verbatim>\<open>Object.prototype\<close>, where every chain ends: the accessor \<^verbatim>\<open>__proto__\<close>
  returns the prototype of the object that the read started from (the argument
  \<open>parent\<close>), the eleven other names give the inherited functions, and every other name
  gives \<^verbatim>\<open>undefined\<close>.
\<close>

definition object_prototype_get :: "fval \<Rightarrow> string \<Rightarrow> fval" where
  "object_prototype_get parent k =
     (if k = ''__proto__'' then parent
      else (case object_member k of None \<Rightarrow> Val JUndefined | Some m \<Rightarrow> Member m))"

text \<open>
  The read at the prototype of the cache. A prototype that is a plain object has its own
  properties and then those of \<^verbatim>\<open>Object.prototype\<close>. A prototype that is an array has its
  elements under their indices and its \<^verbatim>\<open>length\<close>, then the members of
  \<^verbatim>\<open>Array.prototype\<close> (\<^verbatim>\<open>constructor\<close>, \<^verbatim>\<open>toString\<close>, \<^verbatim>\<open>toLocaleString\<close> and the other
  methods), then those of \<^verbatim>\<open>Object.prototype\<close>.
\<close>

fun proto_get :: "world \<Rightarrow> proto \<Rightarrow> string \<Rightarrow> fval" where
  "proto_get w DefaultProto k = object_prototype_get (Member Object_prototype) k"
| "proto_get w NullProto k = Val JUndefined"
| "proto_get w (ObjProto kvs) k =
     (case map_of kvs k of
        Some v \<Rightarrow> held (Chain k) v
      | None \<Rightarrow> object_prototype_get (Held Parent (JObj kvs)) k)"
| "proto_get w (ArrProto xs) k =
     (if (case array_index k of None \<Rightarrow> False | Some i \<Rightarrow> i < length xs)
      then held (Chain k) (xs ! the (array_index k))
      else if k = ''length'' then Val (JNum (int (length xs)))
      else if k = ''constructor'' then Member Array_constructor
      else if k = ''toString'' \<or> k = ''toLocaleString'' \<or> array_member w k
      then Member (Array_method k)
      else object_prototype_get (Held Parent (JArr xs)) k)"

definition cache_get :: "world \<Rightarrow> cache \<Rightarrow> string \<Rightarrow> fval" where
  "cache_get w C k =
     (case map_of (own_props C) k of
        Some v \<Rightarrow> held (Own k) v
      | None \<Rightarrow> proto_get w (prototype C) k)"

subsection \<open>The lookup\<close>

text \<open>
  What \<^verbatim>\<open>_.find(map, predicate)\<close> (underscore 1.8 and later) passes to its predicate, in
  order: \<^verbatim>\<open>map[i]\<close> for each index below \<^verbatim>\<open>map.length\<close> when that property is a number
  that passes the test for a collection iterated by index, and otherwise the values of
  the own properties of the map.
\<close>

definition find_items :: "world \<Rightarrow> cache \<Rightarrow> fval list" where
  "find_items w C =
     (case (case cache_get w C ''length'' of Val v \<Rightarrow> array_like_length v | _ \<Rightarrow> None) of
        Some n \<Rightarrow> map (\<lambda>i. cache_get w C (dec_nat i)) [0..<n]
      | None \<Rightarrow> map (\<lambda>kv. held (Own (fst kv)) (snd kv)) (own_props C))"

text \<open>
  The property key that a value is converted to: \<open>None\<close> when the conversion throws. The
  object \<^verbatim>\<open>Object.prototype\<close> prints as every plain object does, and a function prints as
  the engine decides.
\<close>

definition key_of :: "world \<Rightarrow> fval \<Rightarrow> string option" where
  "key_of w a =
     (case a of
        Val v \<Rightarrow> ToString v
      | Held p v \<Rightarrow> ToString v
      | Member m \<Rightarrow> Some (if m = Object_prototype then ''[object Object]''
                           else function_text w m))"

text \<open>
  \<^verbatim>\<open>getAlias(map, str)\<close> is \<^verbatim>\<open>map[str] || _.find(map, function(v){ return v === str; })\<close>:
  the property named by \<^verbatim>\<open>str\<close> when it is truthy, otherwise the first value that
  \<^verbatim>\<open>_.find\<close> visits and that is strictly equal to \<^verbatim>\<open>str\<close>, otherwise \<^verbatim>\<open>undefined\<close>. The
  result is \<open>None\<close> when the conversion of \<^verbatim>\<open>str\<close> to a property key throws.
\<close>

definition getAlias :: "world \<Rightarrow> cache \<Rightarrow> fval \<Rightarrow> fval option" where
  "getAlias w m str =
     (case key_of w str of
        None \<Rightarrow> None
      | Some k \<Rightarrow>
          (let v = cache_get w m k
           in if truthy_f v then Some v
              else Some (case find (\<lambda>v. strict_eq v str) (find_items w m) of
                           None \<Rightarrow> Val JUndefined
                         | Some v \<Rightarrow> v)))"

subsection \<open>Writing a property of the cache\<close>

text \<open>
  A new own property takes its place in the enumeration order: an array index goes before
  every larger index and before every other key, any other key goes last.
\<close>

fun own_insert :: "(string \<times> jsval) list \<Rightarrow> string \<Rightarrow> jsval \<Rightarrow> (string \<times> jsval) list" where
  "own_insert [] k v = [(k, v)]"
| "own_insert (p # ps) k v =
     (case array_index k of
        None \<Rightarrow> p # own_insert ps k v
      | Some i \<Rightarrow>
          (case array_index (fst p) of
             None \<Rightarrow> (k, v) # p # ps
           | Some j \<Rightarrow> if j < i then p # own_insert ps k v else (k, v) # p # ps))"

text \<open>
  Whether an assignment to \<^verbatim>\<open>__proto__\<close>, on an object without an own property of that
  name, reaches the accessor of \<^verbatim>\<open>Object.prototype\<close>: not when the chain is empty, and not
  when an object before \<^verbatim>\<open>Object.prototype\<close> in the chain has a property of that name
  (\<^verbatim>\<open>JSON.parse\<close> creates one for the key \<^verbatim>\<open>"__proto__"\<close>).
\<close>

fun reaches_setter :: "proto \<Rightarrow> bool" where
  "reaches_setter DefaultProto = True"
| "reaches_setter NullProto = False"
| "reaches_setter (ObjProto kvs) = (''__proto__'' \<notin> set (map fst kvs))"
| "reaches_setter (ArrProto xs) = True"

text \<open>
  The assignment \<^verbatim>\<open>map[k] = v\<close>. An own property is overwritten. Otherwise the
  assignment creates an own property, unless it reaches the accessor \<^verbatim>\<open>__proto__\<close>: the
  setter makes \<open>v\<close> the prototype of the cache when \<open>v\<close> is \<^verbatim>\<open>null\<close>, an object or an
  array, and does nothing for any other \<open>v\<close>.
\<close>

definition cache_set :: "cache \<Rightarrow> string \<Rightarrow> jsval \<Rightarrow> cache" where
  "cache_set C k v =
     (if k \<in> set (map fst (own_props C)) then C\<lparr>own_props := obj_set (own_props C) k v\<rparr>
      else if k = ''__proto__'' \<and> reaches_setter (prototype C)
      then (case v of
              JNull \<Rightarrow> C\<lparr>prototype := NullProto\<rparr>
            | JObj kvs \<Rightarrow> C\<lparr>prototype := ObjProto kvs\<rparr>
            | JArr xs \<Rightarrow> C\<lparr>prototype := ArrProto xs\<rparr>
            | _ \<Rightarrow> C)
      else C\<lparr>own_props := own_insert (own_props C) k v\<rparr>)"

subsection \<open>Listing the workflows\<close>

definition routes_invoke :: options where
  "routes_invoke = \<lparr>opt_path = ''/flo/:id/invoke'', opt_method = ''POST''\<rparr>"

definition routes_flos :: options where
  "routes_flos = \<lparr>opt_path = ''/account/flos'', opt_method = ''GET''\<rparr>"

text \<open>
  The iterator of \<^verbatim>\<open>flos\<close> over the listed workflows, with the cache and the list \<^verbatim>\<open>out\<close>
  it fills. The flag is \<open>False\<close> when reading \<^verbatim>\<open>flo.name\<close> or converting it to a property
  key throws, which ends the iteration.
\<close>

fun fill_floMap ::
  "world \<Rightarrow> jsval list \<Rightarrow> cache \<Rightarrow> jsval list \<Rightarrow> cache \<times> jsval list \<times> bool" where
  "fill_floMap w [] C out = (C, out, True)"
| "fill_floMap w (flo # rest) C out =
     (case get_prop flo ''name'' of
        None \<Rightarrow> (C, out, False)
      | Some name \<Rightarrow>
          (case ToString name of
             None \<Rightarrow> (C, out, False)
           | Some k \<Rightarrow>
               (let out1 = (if \<not> truthy_f (cache_get w C k) then out @ [name] else out)
                in case get_prop flo ''alias'' of
                     None \<Rightarrow> (C, out1, False)
                   | Some a \<Rightarrow> fill_floMap w rest (cache_set C k a) out1)))"

text \<open>What \<^verbatim>\<open>async.each\<close> iterates: the elements of an array.\<close>

definition each_items :: "world \<Rightarrow> jsval \<Rightarrow> jsval list option" where
  "each_items w v = (case v of JArr xs \<Rightarrow> Some xs | _ \<Rightarrow> each_other w v)"

text \<open>The branch of the callback of \<^verbatim>\<open>flos\<close> that replaces the cache.\<close>

definition flos_store :: "world \<Rightarrow> client \<Rightarrow> jsval \<Rightarrow> client \<times> outcome" where
  "flos_store w c listed =
     (let c1 = c\<lparr>floMap := Some empty_cache\<rparr>
      in case each_items w listed of
           None \<Rightarrow> (c1, Uncaught ''TypeError'')
         | Some items \<Rightarrow>
             (case fill_floMap w items empty_cache [] of
                (C, out, ok) \<Rightarrow>
                  (c1\<lparr>floMap := Some C\<rparr>,
                   if ok then Cb_data (JArr out) else Uncaught ''TypeError'')))"

text \<open>
  \<^verbatim>\<open>flos(refresh, callback)\<close>. The cached answer is \<^verbatim>\<open>Object.keys(self.floMap)\<close>, the names
  of the own properties of the cache. The callback that \<^verbatim>\<open>flos\<close> passes to \<^verbatim>\<open>makeRequest\<close>
  tests its error argument with \<^verbatim>\<open>if(error)\<close>, so an error value that is not truthy takes
  the other branch, with \<^verbatim>\<open>undefined\<close> for the listed workflows.
\<close>

definition flos :: "world \<Rightarrow> client \<Rightarrow> bool \<Rightarrow> client \<times> outcome" where
  "flos w c refresh =
     (if floMap c \<noteq> None \<and> \<not> refresh
      then (c, Cb_data (JArr (map (\<lambda>kv. JStr (fst kv)) (own_props (the (floMap c))))))
      else
        (case makeRequest w (c\<lparr>refreshes := Suc (refreshes c)\<rparr>) routes_flos JNull of
           (c1, Uncaught x) \<Rightarrow> (c1, Uncaught x)
         | (c1, Cb_error e) \<Rightarrow>
             if truthy_err e then (c1, Cb_error e) else flos_store w c1 JUndefined
         | (c1, Cb_data v) \<Rightarrow> flos_store w c1 v))"

subsection \<open>Building the path of an invocation\<close>

text \<open>
  \<^verbatim>\<open>s.replace(pat, repl)\<close> with a string pattern and a string \<^verbatim>\<open>repl\<close>: the first
  occurrence of \<^verbatim>\<open>pat\<close> is replaced, and in the replacement \<^verbatim>\<open>$$\<close> stands for a dollar
  sign, \<^verbatim>\<open>$&\<close> for the matched text, \<^verbatim>\<open>$`\<close> for the text before the match and \<^verbatim>\<open>$'\<close> for
  the text after it.
\<close>

fun split_first :: "string \<Rightarrow> string \<Rightarrow> string \<Rightarrow> (string \<times> string) option" where
  "split_first pat pre [] = (if pat = [] then Some (pre, []) else None)"
| "split_first pat pre (c # cs) =
     (if take (length pat) (c # cs) = pat then Some (pre, drop (length pat) (c # cs))
      else split_first pat (pre @ [c]) cs)"

fun expand_replacement :: "string \<Rightarrow> string \<Rightarrow> string \<Rightarrow> string \<Rightarrow> string" where
  "expand_replacement pre matched post [] = []"
| "expand_replacement pre matched post [c] = [c]"
| "expand_replacement pre matched post (c # d # r) =
     (if c = CHR ''$'' \<and> d = CHR ''$'' then CHR ''$'' # expand_replacement pre matched post r
      else if c = CHR ''$'' \<and> d = CHR ''&'' then matched @ expand_replacement pre matched post r
      else if c = CHR ''$'' \<and> d = CHR 0x60 then pre @ expand_replacement pre matched post r
      else if c = CHR ''$'' \<and> d = CHR 0x27 then post @ expand_replacement pre matched post r
      else c # expand_replacement pre matched post (d # r))"

definition js_replace :: "string \<Rightarrow> string \<Rightarrow> string \<Rightarrow> string" where
  "js_replace s pat repl =
     (case split_first pat [] s of
        None \<Rightarrow> s
      | Some (pre, post) \<Rightarrow> pre @ expand_replacement pre pat post repl @ post)"

text \<open>
  When \<^verbatim>\<open>repl\<close> is a function, \<^verbatim>\<open>replace\<close> calls it with \<^verbatim>\<open>this\<close> undefined and with the
  matched text, its position and the whole string, and inserts the result, converted to a
  string, as it is. \<open>call_replacer\<close> is that string for the inherited functions, and
  \<open>None\<close> where the call throws a \<^verbatim>\<open>TypeError\<close>: \<^verbatim>\<open>Object(matched)\<close> prints as the matched
  text, \<^verbatim>\<open>Object.prototype.toString\<close> answers \<^verbatim>\<open>[object Undefined]\<close>, \<^verbatim>\<open>isPrototypeOf\<close>
  answers \<^verbatim>\<open>false\<close> for an argument that is no object, \<^verbatim>\<open>Array(matched, position, s)\<close> is
  the array of its three arguments, and every other of these functions starts by
  converting \<^verbatim>\<open>this\<close> to an object, which throws.
\<close>

fun call_replacer :: "member \<Rightarrow> string \<Rightarrow> nat \<Rightarrow> string \<Rightarrow> string option" where
  "call_replacer Object_constructor matched pos s = Some matched"
| "call_replacer Object_toString matched pos s = Some ''[object Undefined]''"
| "call_replacer Object_isPrototypeOf matched pos s = Some ''false''"
| "call_replacer Array_constructor matched pos s = Some (join '','' [matched, dec_nat pos, s])"
| "call_replacer m matched pos s = None"

text \<open>
  \<^verbatim>\<open>s.replace(pat, a)\<close> for a value \<open>a\<close> of any kind: \<open>None\<close> when it throws. A value
  that is no function is converted to a string first; \<^verbatim>\<open>Object.prototype\<close> is such a
  value.
\<close>

definition replace_with :: "string \<Rightarrow> string \<Rightarrow> fval \<Rightarrow> string option" where
  "replace_with s pat a =
     (case a of
        Val v \<Rightarrow> map_option (js_replace s pat) (ToString v)
      | Held p v \<Rightarrow> map_option (js_replace s pat) (ToString v)
      | Member m \<Rightarrow>
          if m = Object_prototype then Some (js_replace s pat ''[object Object]'')
          else (case split_first pat [] s of
                  None \<Rightarrow> Some s
                | Some (pre, post) \<Rightarrow>
                    map_option (\<lambda>r. pre @ r @ post) (call_replacer m pat (length pre) s)))"

subsection \<open>The invoker\<close>

text \<open>\<^verbatim>\<open>self.floMap || {}\<close>.\<close>

definition cache_of :: "client \<Rightarrow> cache" where
  "cache_of c = (case floMap c of None \<Rightarrow> empty_cache | Some C \<Rightarrow> C)"

text \<open>
  The first two statements of \<^verbatim>\<open>invoke\<close>: the alias is what the lookup returns, or the
  name itself when the lookup returns nothing truthy and \<^verbatim>\<open>force\<close> is set. \<open>None\<close> when
  the lookup throws.
\<close>

definition resolve :: "world \<Rightarrow> client \<Rightarrow> fval \<Rightarrow> bool \<Rightarrow> fval option" where
  "resolve w c flo force =
     (case getAlias w (cache_of c) flo of
        None \<Rightarrow> None
      | Some found \<Rightarrow> Some (if \<not> truthy_f found \<and> force then flo else found))"

text \<open>
  \<^verbatim>\<open>invoke(flo, data, force, callback)\<close>. The source calls itself after a refresh that
  resolved the name; the first argument bounds the depth of these calls, and \<open>None\<close>
  means that the bound was reached. The call \<^verbatim>\<open>self.invoke(alias, data, callback)\<close> has
  no \<^verbatim>\<open>force\<close> argument, so \<^verbatim>\<open>force\<close> is \<^verbatim>\<open>false\<close> there. A rejected refresh reaches the
  callback through \<^verbatim>\<open>.then(..., callback)\<close>; after an exception the callback is never
  called. The lookup after the refresh reads the new cache, of which \<^verbatim>\<open>flo\<close> is no
  object.
\<close>

fun invoke :: "nat \<Rightarrow> world \<Rightarrow> client \<Rightarrow> fval \<Rightarrow> jsval \<Rightarrow> bool \<Rightarrow> (client \<times> outcome) option" where
  "invoke 0 w c flo data force = None"
| "invoke (Suc n) w c flo data force =
     (case resolve w c flo force of
        None \<Rightarrow> Some (c, Uncaught ''TypeError'')
      | Some used \<Rightarrow>
          if truthy_f used
          then (case replace_with (opt_path routes_invoke) '':id'' used of
                  None \<Rightarrow> Some (c, Uncaught ''TypeError'')
                | Some p \<Rightarrow> Some (makeRequest w c (routes_invoke\<lparr>opt_path := p\<rparr>) data))
          else
            (case flos w c True of
               (c1, Cb_data names) \<Rightarrow>
                 (case floMap c1 of
                    None \<Rightarrow> Some (c1, Uncaught ''TypeError'')
                  | Some m \<Rightarrow>
                      (case getAlias w m (stale flo) of
                         None \<Rightarrow> Some (c1, Uncaught ''TypeError'')
                       | Some found \<Rightarrow>
                           if truthy_f found then invoke n w c1 found data False
                           else Some (c1, Cb_error (ErrorObj ''Flo not found''))))
             | (c1, Cb_error e) \<Rightarrow> Some (c1, Cb_error e)
             | (c1, Uncaught x) \<Rightarrow> Some (c1, Uncaught x)))"


section \<open>A concrete world for the examples\<close>

text \<open>
  The examples below run the client against stand-ins for its collaborators: a digest that
  is injective in the key and the message, a clock, a transport that answers the list call
  with a given body and every other call with \<^verbatim>\<open>{"ok":true}\<close>, \<^verbatim>\<open>JSON.parse\<close> on the
  texts the examples use (it throws on every other text of the examples, none of which
  is JSON), a few methods of \<^verbatim>\<open>Array.prototype\<close>, and one text for every function.
\<close>

definition demo_hmac :: "string \<Rightarrow> string \<Rightarrow> string" where
  "demo_hmac k m = concat (map (\<lambda>c. [CHR ''x'', c]) k) @ CHR ''|'' # m"


definition flos_json :: string where
  \<open>flos_json = ''[{"name":"billing","alias":"az1"}]''\<close>

definition ok_json :: string where
  \<open>ok_json = ''{"ok":true}''\<close>

definition demo_parse :: "string \<Rightarrow> jsval option" where
  "demo_parse s =
     (if s = flos_json
      then Some (JArr [JObj [(''name'', JStr ''billing''), (''alias'', JStr ''az1'')]])
      else if s = ''[]'' then Some (JArr [])
      else if s = ok_json then Some (JObj [(''ok'', JBool True)])
      else None)"

definition demo_world :: "string \<Rightarrow> world" where
  "demo_world listed =
     \<lparr>digest = demo_hmac,
      now = (\<lambda>n. ''t'' @ dec_nat n),
      transport = (\<lambda>n r. if req_method r = ''GET'' then Response listed else Response ok_json),
      JSON_parse = demo_parse,
      each_other = (\<lambda>v. Some []),
      array_member = (\<lambda>k. k \<in> set [''push'', ''pop'', ''join'', ''slice'', ''forEach'']),
      function_text = (\<lambda>m. ''function () { [native code] }'')\<rparr>"

definition demo_client :: client where
  "demo_client =
     \<lparr>account = Some \<lparr>accessKey = Some ''k'', accessSecret = Some ''s''\<rparr>,
      floMap = None,
      headers = [(''Content-Type'', JStr ''application/json'')],
      sent = [],
      refreshes = 0\<rparr>"

text \<open>A cache with one workflow, as a refresh leaves it.\<close>

definition demo_cache :: cache where
  "demo_cache = \<lparr>own_props = [(''billing'', JStr ''az1'')], prototype = DefaultProto\<rparr>"

section \<open>Properties of the helpers\<close>

lemma demo_hmac_inj: "demo_hmac k m = demo_hmac k' m' \<Longrightarrow> k = k' \<and> m = m'"
  unfolding demo_hmac_def
proof (induction k arbitrary: k')
  case Nil
  then show ?case by (cases k') auto
next
  case (Cons a k)
  then show ?case by (cases k') auto
qed

lemma map_of_obj_set: "map_of (obj_set m k v) = (map_of m)(k \<mapsto> v)"
  by (induction m) auto

lemma obj_get_obj_set: "obj_get (obj_set m k v) k' = (if k' = k then v else obj_get m k')"
  by (simp add: obj_get_def map_of_obj_set)

lemma JSON_stringify_None: "JSON_stringify v = None \<longleftrightarrow> v = JUndefined"
  by (cases v) auto

lemma JSON_stringify_object:
  "typeof_object data \<Longrightarrow> data \<noteq> JNull \<Longrightarrow> \<exists>json. JSON_stringify data = Some json"
  by (cases data) auto

lemma normalize_params_defined: "normalize_params p \<noteq> JUndefined"
  by (cases p) (auto simp: normalize_params_def)

lemma stringify_normalized: "\<exists>json. JSON_stringify (normalize_params p) = Some json"
  using JSON_stringify_None [of "normalize_params p"] normalize_params_defined [of p]
  by (cases "JSON_stringify (normalize_params p)") auto

text \<open>
  With credentials, \<^verbatim>\<open>makeRequest\<close> hands exactly one request to the transport and ends as
  the transport's answer decides.
\<close>

lemma makeRequest_sends:
  assumes "\<not> missing_credentials (account c)"
  shows "\<exists>r. makeRequest w c opts params =
            (c\<lparr>headers := req_headers r, sent := sent c @ [r]\<rparr>,
             on_response w (transport w (length (sent c)) r))
     \<and> req_method r = opt_method opts
     \<and> req_path r = (if opt_method opts = ''GET''
                     then foldl (\<lambda>p kv. addGetParameter p (fst kv) (snd kv))
                            (opt_path opts) (each_args (normalize_params params))
                     else opt_path opts)
     \<and> req_body r = (if opt_method opts = ''GET'' then normalize_params params
                     else stringify_val (normalize_params params))
     \<and> obj_get (req_headers r) ''x-api-hash'' =
          JStr (signData (digest w) (the (accessSecret (the (account c))))
                  (normalize_params params) (opt_method opts) (opt_path opts)
                  (now w (length (sent c))))
     \<and> obj_get (req_headers r) ''x-api-timestamp'' = JStr (now w (length (sent c)))
     \<and> obj_get (req_headers r) ''x-api-accessKey'' = JStr (the (accessKey (the (account c))))
     \<and> (opt_method opts = ''POST'' \<longrightarrow>
          obj_get (req_headers r) ''Content-Length'' =
            JNum (int (byteLength (to_string (req_body r)))))"
proof -
  obtain json where j: "JSON_stringify (normalize_params params) = Some json"
    using stringify_normalized by blast
  show ?thesis
    apply (rule exI [where x = "last (sent (fst (makeRequest w c opts params)))"])
    using assms j
    apply (simp add: makeRequest_def Let_def stringify_val_def obj_get_obj_set)
    done
qed

section \<open>The signer: what is signed\<close>

text \<open>
  C1. For every secret, verb, path, timestamp and body, \<^verbatim>\<open>signData\<close> returns the digest,
  keyed by the secret, of \<open>lowercase(verb) + ":" + path + ":" + timestamp\<close> followed directly
  by the serialized body: the empty string when the body is absent (\<^verbatim>\<open>undefined\<close> or
  \<^verbatim>\<open>null\<close>), and its JSON text when the body is an object (an array is one).
\<close>

theorem signData_signs_message:
  "(data = JUndefined \<or> data = JNull \<longrightarrow>
      signData hmac secret data verb path timestamp =
        hmac secret (toLowerCase verb @ '':'' @ path @ '':'' @ timestamp @ []))
   \<and> (typeof_object data \<and> data \<noteq> JNull \<longrightarrow>
        (\<exists>json. JSON_stringify data = Some json \<and>
           signData hmac secret data verb path timestamp =
             hmac secret (toLowerCase verb @ '':'' @ path @ '':'' @ timestamp @ json)))"
proof (intro conjI impI)
  assume "data = JUndefined \<or> data = JNull"
  then show "signData hmac secret data verb path timestamp =
        hmac secret (toLowerCase verb @ '':'' @ path @ '':'' @ timestamp @ [])"
    by (auto simp: signData_def signed_message_def)
next
  assume a: "typeof_object data \<and> data \<noteq> JNull"
  then obtain json where j: "JSON_stringify data = Some json"
    using JSON_stringify_object by blast
  from a have t: "truthy data" by (cases data) auto
  show "\<exists>json. JSON_stringify data = Some json \<and>
           signData hmac secret data verb path timestamp =
             hmac secret (toLowerCase verb @ '':'' @ path @ '':'' @ timestamp @ json)"
    using a j t by (simp add: signData_def signed_message_def stringify_val_def)
qed

theorem signData_signs_message_witness:
  "signData demo_hmac ''s'' JUndefined ''POST'' ''/flo/az1/invoke'' ''t0''
     = demo_hmac ''s'' ''post:/flo/az1/invoke:t0''
   \<and> signData demo_hmac ''s'' (JArr [JNum 5]) ''POST'' ''/flo/az1/invoke'' ''t0''
     = demo_hmac ''s'' ''post:/flo/az1/invoke:t0[5]''"
proof -
  have l: "toLowerCase ''POST'' = ''post''"
    by code_simp
  have j: "dec_int 5 = ''5''"
    by code_simp
  show ?thesis
    using signData_signs_message
            [of JUndefined demo_hmac "''s''" "''POST''" "''/flo/az1/invoke''" "''t0''"]
          signData_signs_message
            [of "JArr [JNum 5]" demo_hmac "''s''" "''POST''" "''/flo/az1/invoke''" "''t0''"]
    by (simp add: l j)
qed


section \<open>The signer: sensitivity to the inputs\<close>





text \<open>
  A digest with finitely many values, such as one of 64 hexadecimal digits, collides on
  the messages of \<^verbatim>\<open>signData\<close>: whatever the other inputs are, two paths have the same
  signature.
\<close>

lemma signData_finite_range_collides:
  assumes "finite (range (hmac s))"
  shows "\<exists>p1 p2. p1 \<noteq> p2 \<and> signData hmac s d v p1 t = signData hmac s d v p2 t"
proof -
  let ?f = "\<lambda>p. signData hmac s d v p t"
  have "range ?f \<subseteq> range (hmac s)"
    by (auto simp: signData_def)
  then have fin: "finite (range ?f)"
    using assms by (rule finite_subset)
  have "\<not> inj ?f"
  proof
    assume "inj ?f"
    then have "finite (UNIV :: string set)"
      using fin by (rule finite_imageD [rotated])
    then show False
      using infinite_UNIV_listI by blast
  qed
  then show ?thesis
    by (auto simp: inj_on_def)
qed

section \<open>The alias lookup\<close>

lemma strict_eq_held_string: "strict_eq (held p v) (Val (JStr s)) = (v = JStr s)"
  by (cases v) auto

lemma find_own_string:
  "(case find (\<lambda>v. strict_eq v (Val (JStr s)))
            (map (\<lambda>kv. held (Own (fst kv)) (snd kv)) kvs) of
      None \<Rightarrow> Val JUndefined | Some v \<Rightarrow> v)
   = (if JStr s \<in> snd ` set kvs then Val (JStr s) else Val JUndefined)"
  by (induction kvs) (auto simp: strict_eq_held_string)

lemma object_member_length: "object_member ''length'' = None"
  by code_simp

lemma key_of_string: "key_of w (Val (JStr s)) = Some s"
  by (simp add: key_of_def ToString_def)

lemma not_number_not_array_like: "\<not> is_number v \<Longrightarrow> array_like_length v = None"
  by (cases v) auto

lemma array_like_held:
  "(case held p v of Val u \<Rightarrow> array_like_length u | _ \<Rightarrow> None) = array_like_length v"
  by (cases v) auto

text \<open>
  A cache that is a plain object, and whose property \<^verbatim>\<open>length\<close> is no number, is
  searched by \<^verbatim>\<open>_.find\<close> through the values of its own properties.
\<close>

lemma find_items_plain:
  assumes "prototype C = DefaultProto"
      and "\<not> is_number (obj_get (own_props C) ''length'')"
  shows "find_items w C = map (\<lambda>kv. held (Own (fst kv)) (snd kv)) (own_props C)"
proof -
  have "(case cache_get w C ''length'' of Val v \<Rightarrow> array_like_length v | _ \<Rightarrow> None) = None"
  proof (cases "map_of (own_props C) ''length''")
    case None
    then show ?thesis
      using assms(1) by (simp add: cache_get_def object_prototype_get_def object_member_length)
  next
    case (Some v)
    then show ?thesis
      using assms(2)
      by (simp add: cache_get_def obj_get_def array_like_held not_number_not_array_like)
  qed
  then show ?thesis
    by (simp add: find_items_def)
qed

text \<open>
  C8, as amended. For every cache mapping that is a plain object and has no number as the
  alias of the name \<^verbatim>\<open>length\<close>, and for every string \<open>s\<close>: when \<open>s\<close> is a name of the
  mapping and its alias is truthy, the lookup returns that alias. When \<open>s\<close> is a name
  of the mapping whose alias is not truthy (the empty string), or \<open>s\<close> is neither a name
  of the mapping nor the name of a member that every object inherits (\<^verbatim>\<open>constructor\<close>,
  \<^verbatim>\<open>toString\<close> and the like), the lookup returns \<open>s\<close> itself when some stored alias is
  \<open>s\<close>, and \<^verbatim>\<open>undefined\<close> otherwise.
\<close>

theorem getAlias_lookup:
  assumes "prototype C = DefaultProto"
      and "\<not> is_number (obj_get (own_props C) ''length'')"
  shows "(\<forall>a. map_of (own_props C) s = Some a \<and> truthy a \<longrightarrow>
            getAlias w C (Val (JStr s)) = Some (held (Own s) a))
       \<and> ((\<exists>a. map_of (own_props C) s = Some a \<and> \<not> truthy a)
            \<or> (map_of (own_props C) s = None \<and> object_member s = None \<and> s \<noteq> ''__proto__'')
          \<longrightarrow> getAlias w C (Val (JStr s)) =
                Some (if JStr s \<in> snd ` set (own_props C) then Val (JStr s)
                      else Val JUndefined))"
proof (intro conjI allI impI)
  fix a
  assume a: "map_of (own_props C) s = Some a \<and> truthy a"
  then have "truthy_f (held (Own s) a)"
    by (cases a) auto
  then show "getAlias w C (Val (JStr s)) = Some (held (Own s) a)"
    using a by (simp add: getAlias_def key_of_string cache_get_def Let_def)
next
  assume d: "(\<exists>a. map_of (own_props C) s = Some a \<and> \<not> truthy a)
            \<or> (map_of (own_props C) s = None \<and> object_member s = None \<and> s \<noteq> ''__proto__'')"
  have f: "\<not> truthy_f (cache_get w C s)"
    using d
  proof
    assume "\<exists>a. map_of (own_props C) s = Some a \<and> \<not> truthy a"
    then obtain a where a: "map_of (own_props C) s = Some a" "\<not> truthy a"
      by blast
    then have "\<not> truthy_f (held (Own s) a)"
      by (cases a) auto
    then show ?thesis
      using a by (simp add: cache_get_def)
  next
    assume "map_of (own_props C) s = None \<and> object_member s = None \<and> s \<noteq> ''__proto__''"
    then show ?thesis
      using assms(1) by (simp add: cache_get_def object_prototype_get_def)
  qed
  show "getAlias w C (Val (JStr s)) =
          Some (if JStr s \<in> snd ` set (own_props C) then Val (JStr s) else Val JUndefined)"
    using f
    by (simp add: getAlias_def key_of_string Let_def find_items_plain [OF assms]
          find_own_string)
qed

theorem getAlias_lookup_witness:
  "prototype demo_cache = DefaultProto
   \<and> \<not> is_number (obj_get (own_props demo_cache) ''length'')
   \<and> (map_of (own_props demo_cache) ''billing'' = Some (JStr ''az1'') \<and> truthy (JStr ''az1''))
   \<and> getAlias (demo_world []) demo_cache (Val (JStr ''billing''))
       = Some (held (Own ''billing'') (JStr ''az1''))
   \<and> held (Own ''billing'') (JStr ''az1'') = Val (JStr ''az1'')
   \<and> (map_of (own_props demo_cache) ''az1'' = None \<and> object_member ''az1'' = None
        \<and> ''az1'' \<noteq> ''__proto__'')
   \<and> getAlias (demo_world []) demo_cache (Val (JStr ''az1''))
       = Some (if JStr ''az1'' \<in> snd ` set (own_props demo_cache) then Val (JStr ''az1'')
               else Val JUndefined)
   \<and> JStr ''az1'' \<in> snd ` set (own_props demo_cache)
   \<and> (map_of (own_props demo_cache) ''other'' = None \<and> object_member ''other'' = None
        \<and> ''other'' \<noteq> ''__proto__'')
   \<and> getAlias (demo_world []) demo_cache (Val (JStr ''other''))
       = Some (if JStr ''other'' \<in> snd ` set (own_props demo_cache) then Val (JStr ''other'')
               else Val JUndefined)
   \<and> JStr ''other'' \<notin> snd ` set (own_props demo_cache)"
proof -
  have h1: "prototype demo_cache = DefaultProto"
    by (simp add: demo_cache_def)
  have h2: "\<not> is_number (obj_get (own_props demo_cache) ''length'')"
    by code_simp
  have k1: "map_of (own_props demo_cache) ''billing'' = Some (JStr ''az1'') \<and> truthy (JStr ''az1'')"
    by code_simp
  have k2: "map_of (own_props demo_cache) ''az1'' = None \<and> object_member ''az1'' = None
        \<and> ''az1'' \<noteq> ''__proto__''"
    by code_simp
  have k3: "map_of (own_props demo_cache) ''other'' = None \<and> object_member ''other'' = None
        \<and> ''other'' \<noteq> ''__proto__''"
    by code_simp
  have v1: "held (Own ''billing'') (JStr ''az1'') = Val (JStr ''az1'')"
    by simp
  have v2: "JStr ''az1'' \<in> snd ` set (own_props demo_cache)"
    by (simp add: demo_cache_def)
  have v3: "JStr ''other'' \<notin> snd ` set (own_props demo_cache)"
    by (simp add: demo_cache_def)
  note t1 = getAlias_lookup [OF h1 h2, where s = "''billing''" and w = "demo_world []"]
  note t2 = getAlias_lookup [OF h1 h2, where s = "''az1''" and w = "demo_world []"]
  note t3 = getAlias_lookup [OF h1 h2, where s = "''other''" and w = "demo_world []"]
  note a = mp [OF spec [OF conjunct1 [OF t1]] k1]
  note b = mp [OF conjunct2 [OF t2] disjI2 [OF k2]]
  note c = mp [OF conjunct2 [OF t3] disjI2 [OF k3]]
  show ?thesis
    by (rule conjI [OF h1 conjI [OF h2 conjI [OF k1 conjI [OF a conjI [OF v1 conjI [OF k2
          conjI [OF b conjI [OF v2 conjI [OF k3 conjI [OF c v3]]]]]]]]]])
qed

text \<open>
  The claim as stated fails where a name maps to the empty alias: the lookup of the name
  \<open>a\<close> returns \<open>a\<close> itself, found among the aliases, and the lookup of the name \<open>c\<close>
  reports the workflow absent. It fails also for the name \<^verbatim>\<open>constructor\<close>, which is no
  name of the empty mapping and no alias in it: the lookup returns the function that the
  mapping inherits.
\<close>

theorem getAlias_empty_alias_counterexample:
  "map_of [(''a'', JStr []), (''b'', JStr ''a'')] ''a'' = Some (JStr [])
   \<and> getAlias (demo_world [])
        \<lparr>own_props = [(''a'', JStr []), (''b'', JStr ''a'')], prototype = DefaultProto\<rparr>
        (Val (JStr ''a'')) = Some (Val (JStr ''a''))
   \<and> map_of [(''c'', JStr [])] ''c'' = Some (JStr [])
   \<and> getAlias (demo_world []) \<lparr>own_props = [(''c'', JStr [])], prototype = DefaultProto\<rparr>
        (Val (JStr ''c'')) = Some (Val JUndefined)
   \<and> getAlias (demo_world []) empty_cache (Val (JStr ''constructor''))
        = Some (Member Object_constructor)"
  by code_simp

text \<open>
  The names that a plain cache does not hold itself and inherits: the lookup returns the
  inherited member, whatever the aliases are.
\<close>

lemma getAlias_inherited:
  assumes "prototype C = DefaultProto" and "map_of (own_props C) s = None"
      and "object_member s = Some m"
  shows "getAlias w C (Val (JStr s)) = Some (Member m)"
proof -
  have "s \<noteq> ''__proto__''"
  proof
    assume "s = ''__proto__''"
    moreover have "object_member ''__proto__'' = None"
      by code_simp
    ultimately show False
      using assms(3) by simp
  qed
  then show ?thesis
    using assms by (simp add: getAlias_def key_of_string cache_get_def object_prototype_get_def)
qed

section \<open>The request builder: GET\<close>


lemma lower_POST: "toLowerCase ''POST'' = ''post''"
  by code_simp




section \<open>The request builder: POST\<close>

lemma signed_message_object:
  assumes "typeof_object data" "0 < object_keys_length data" "JSON_stringify data = Some json"
  shows "signed_message data verb path timestamp =
           toLowerCase verb @ '':'' @ path @ '':'' @ timestamp @ json"
  using assms by (cases data) (auto simp: signed_message_def Let_def stringify_val_def)

lemma signed_message_empty:
  "signed_message (JStr []) verb path timestamp = toLowerCase verb @ '':'' @ path @ '':'' @ timestamp"
  by (simp add: signed_message_def Let_def)

lemma normalize_params_object:
  "typeof_object params \<Longrightarrow> 0 < object_keys_length params \<Longrightarrow> normalize_params params = params"
  by (cases params) (auto simp: normalize_params_def)

lemma normalize_params_empty:
  "\<not> truthy params \<or> object_keys_length params = 0 \<Longrightarrow> normalize_params params = JStr []"
  by (auto simp: normalize_params_def)

text \<open>
  C7, as amended. For every POST request, the body passed to the transport is the JSON
  text of the parameters after \<^verbatim>\<open>makeRequest\<close> has replaced absent parameters and
  parameters without keys by the empty string, and the \<^verbatim>\<open>Content-Length\<close> header is the
  byte length of that body. When the parameters are an object (or an array) with at least
  one key, the body text covered by the signature is the body sent. When the parameters
  are absent or have no key, the signature covers the empty string.
\<close>

theorem makeRequest_POST_body:
  assumes "\<not> missing_credentials (account c)" and "opt_method opts = ''POST''"
  shows "\<exists>r json. sent (fst (makeRequest w c opts params)) = sent c @ [r]
           \<and> JSON_stringify (normalize_params params) = Some json
           \<and> req_body r = JStr json
           \<and> obj_get (req_headers r) ''Content-Length'' = JNum (int (byteLength json))
           \<and> (typeof_object params \<and> 0 < object_keys_length params \<longrightarrow>
                obj_get (req_headers r) ''x-api-hash'' =
                  JStr (digest w (the (accessSecret (the (account c))))
                         (''post:'' @ opt_path opts @ '':'' @ now w (length (sent c)) @ json)))
           \<and> (\<not> truthy params \<or> object_keys_length params = 0 \<longrightarrow>
                obj_get (req_headers r) ''x-api-hash'' =
                  JStr (digest w (the (accessSecret (the (account c))))
                         (''post:'' @ opt_path opts @ '':'' @ now w (length (sent c)) @ [])))"
proof -
  obtain r where r: "makeRequest w c opts params =
            (c\<lparr>headers := req_headers r, sent := sent c @ [r]\<rparr>,
             on_response w (transport w (length (sent c)) r))"
     and b: "req_body r = (if opt_method opts = ''GET'' then normalize_params params
                     else stringify_val (normalize_params params))"
     and h: "obj_get (req_headers r) ''x-api-hash'' =
          JStr (signData (digest w) (the (accessSecret (the (account c))))
                  (normalize_params params) (opt_method opts) (opt_path opts)
                  (now w (length (sent c))))"
     and l: "opt_method opts = ''POST'' \<longrightarrow>
          obj_get (req_headers r) ''Content-Length'' =
            JNum (int (byteLength (to_string (req_body r))))"
    using makeRequest_sends [OF assms(1), of w opts params] by blast
  obtain json where j: "JSON_stringify (normalize_params params) = Some json"
    using stringify_normalized by blast
  have s: "sent (fst (makeRequest w c opts params)) = sent c @ [r]"
    by (simp add: r)
  have body: "req_body r = JStr json"
    using b j assms(2) by (simp add: stringify_val_def)
  have len: "obj_get (req_headers r) ''Content-Length'' = JNum (int (byteLength json))"
    using l body assms(2) by simp
  have obj: "typeof_object params \<and> 0 < object_keys_length params \<longrightarrow>
                obj_get (req_headers r) ''x-api-hash'' =
                  JStr (digest w (the (accessSecret (the (account c))))
                         (''post:'' @ opt_path opts @ '':'' @ now w (length (sent c)) @ json))"
  proof
    assume a: "typeof_object params \<and> 0 < object_keys_length params"
    then have n: "normalize_params params = params"
      by (simp add: normalize_params_object)
    show "obj_get (req_headers r) ''x-api-hash'' =
                  JStr (digest w (the (accessSecret (the (account c))))
                         (''post:'' @ opt_path opts @ '':'' @ now w (length (sent c)) @ json))"
      using h a j n assms(2)
      by (simp add: signData_def signed_message_object [where json = json] lower_POST)
  qed
  have emp: "\<not> truthy params \<or> object_keys_length params = 0 \<longrightarrow>
                obj_get (req_headers r) ''x-api-hash'' =
                  JStr (digest w (the (accessSecret (the (account c))))
                         (''post:'' @ opt_path opts @ '':'' @ now w (length (sent c)) @ []))"
  proof
    assume a: "\<not> truthy params \<or> object_keys_length params = 0"
    then have n: "normalize_params params = JStr []"
      by (rule normalize_params_empty)
    show "obj_get (req_headers r) ''x-api-hash'' =
                  JStr (digest w (the (accessSecret (the (account c))))
                         (''post:'' @ opt_path opts @ '':'' @ now w (length (sent c)) @ []))"
      using h n assms(2) by (simp add: signData_def signed_message_empty lower_POST)
  qed
  show ?thesis
    apply (rule exI [where x = r], rule exI [where x = json])
    apply (intro conjI)
         apply (rule s, rule j, rule body, rule len, rule obj, rule emp)
    done
qed

theorem makeRequest_POST_body_witness:
  "\<not> missing_credentials (account demo_client)
   \<and> opt_method \<lparr>opt_path = ''/flo/az1/invoke'', opt_method = ''POST''\<rparr> = ''POST''
   \<and> (\<exists>r json. sent (fst (makeRequest (demo_world ''[]'') demo_client \<lparr>opt_path = ''/flo/az1/invoke'', opt_method = ''POST''\<rparr> (JArr [JNum 5]))) = sent demo_client @ [r]
           \<and> JSON_stringify (normalize_params (JArr [JNum 5])) = Some json
           \<and> req_body r = JStr json
           \<and> obj_get (req_headers r) ''Content-Length'' = JNum (int (byteLength json))
           \<and> (typeof_object (JArr [JNum 5]) \<and> 0 < object_keys_length (JArr [JNum 5]) \<longrightarrow>
                obj_get (req_headers r) ''x-api-hash'' =
                  JStr (digest (demo_world ''[]'') (the (accessSecret (the (account demo_client))))
                         (''post:'' @ opt_path \<lparr>opt_path = ''/flo/az1/invoke'', opt_method = ''POST''\<rparr> @ '':'' @ now (demo_world ''[]'') (length (sent demo_client)) @ json)))
           \<and> (\<not> truthy (JArr [JNum 5]) \<or> object_keys_length (JArr [JNum 5]) = 0 \<longrightarrow>
                obj_get (req_headers r) ''x-api-hash'' =
                  JStr (digest (demo_world ''[]'') (the (accessSecret (the (account demo_client))))
                         (''post:'' @ opt_path \<lparr>opt_path = ''/flo/az1/invoke'', opt_method = ''POST''\<rparr> @ '':'' @ now (demo_world ''[]'') (length (sent demo_client)) @ []))))
   \<and> map req_body (sent (fst (makeRequest (demo_world ''[]'') demo_client \<lparr>opt_path = ''/flo/az1/invoke'', opt_method = ''POST''\<rparr> (JArr [JNum 5])))) = [JStr ''[5]'']"
proof -
  have h1: "\<not> missing_credentials (account demo_client)"
    by code_simp
  have h2: "opt_method \<lparr>opt_path = ''/flo/az1/invoke'', opt_method = ''POST''\<rparr> = ''POST''"
    by simp
  have e: "map req_body (sent (fst (makeRequest (demo_world ''[]'') demo_client \<lparr>opt_path = ''/flo/az1/invoke'', opt_method = ''POST''\<rparr> (JArr [JNum 5])))) = [JStr ''[5]'']"
    by code_simp
  note t = makeRequest_POST_body [OF h1 h2, of "demo_world ''[]''" "JArr [JNum 5]"]
  show ?thesis
    by (rule conjI [OF h1 conjI [OF h2 conjI [OF t e]]])
qed

text \<open>
  The claim as stated fails for parameters without keys: the body sent for \<^verbatim>\<open>{}\<close> is the
  JSON text of the empty string, two quotation marks, while the signature covers the
  empty string.
\<close>

theorem makeRequest_POST_empty_counterexample:
  "map req_body (sent (fst (makeRequest (demo_world ''[]'') demo_client \<lparr>opt_path = ''/flo/az1/invoke'', opt_method = ''POST''\<rparr> (JObj []))))
     = [JStr [CHR 0x22, CHR 0x22]]
   \<and> map (\<lambda>r. obj_get (req_headers r) ''x-api-hash'')
         (sent (fst (makeRequest (demo_world ''[]'') demo_client \<lparr>opt_path = ''/flo/az1/invoke'', opt_method = ''POST''\<rparr> (JObj []))))
     = [JStr (demo_hmac ''s'' ''post:/flo/az1/invoke:t0'')]"
  by code_simp


section \<open>The request builder: query parameters\<close>

lemma addGetParameter_has_query: "CHR ''?'' \<in> set (addGetParameter path k v)"
  by (simp add: addGetParameter_def Let_def)

lemma foldl_addGetParameter:
  "args \<noteq> [] \<Longrightarrow>
     foldl (\<lambda>p kv. addGetParameter p (fst kv) (snd kv)) path args =
       path @ (if CHR ''?'' \<in> set path then ''&'' else ''?'')
         @ join ''&'' (map (\<lambda>a. encodeURIComponent (fst a) @ ''='' @ encodeURIComponent (snd a)) args)"
proof (induction args arbitrary: path)
  case Nil
  then show ?case by simp
next
  case (Cons a as)
  show ?case
  proof (cases as)
    case Nil
    then show ?thesis by (simp add: addGetParameter_def Let_def)
  next
    case (Cons b bs)
    then have ne: "as \<noteq> []" by simp
    have q: "CHR ''?'' \<in> set (addGetParameter path (fst a) (snd a))"
      by (rule addGetParameter_has_query)
    have "foldl (\<lambda>p kv. addGetParameter p (fst kv) (snd kv)) path (a # as) =
            foldl (\<lambda>p kv. addGetParameter p (fst kv) (snd kv))
              (addGetParameter path (fst a) (snd a)) as"
      by simp
    also have "\<dots> = addGetParameter path (fst a) (snd a) @ ''&''
         @ join ''&'' (map (\<lambda>a. encodeURIComponent (fst a) @ ''='' @ encodeURIComponent (snd a)) as)"
      using Cons.IH [OF ne, of "addGetParameter path (fst a) (snd a)"] q by simp
    finally show ?thesis
      using Cons by (simp add: addGetParameter_def Let_def)
  qed
qed

text \<open>
  C5, as amended. For every GET request whose parameters are a plain object with at least
  one key, no number under the key \<^verbatim>\<open>length\<close>, and values that convert to strings, one
  query parameter is appended to the request path for each entry of the object, in order.
  Each is written as two percent-encoded components joined by \<open>=\<close>, which are the key
  and the value of the entry. The first is preceded by \<open>?\<close> when the path given to
  \<^verbatim>\<open>makeRequest\<close> contains no question mark and by \<open>&\<close> when it does, and each later one
  by \<open>&\<close>. The body passed to the transport is the parameter object itself.
\<close>

theorem makeRequest_GET_params:
  assumes "\<not> missing_credentials (account c)" and "opt_method opts = ''GET''" and "kvs \<noteq> []"
      and "\<not> is_number (obj_get kvs ''length'')"
      and "list_all converts (map snd kvs)"
  shows "\<exists>r args. sent (fst (makeRequest w c opts (JObj kvs))) = sent c @ [r]
           \<and> req_body r = JObj kvs
           \<and> length args = length kvs
           \<and> (\<forall>i<length kvs. {fst (args ! i), snd (args ! i)}
                                = {JStr (fst (kvs ! i)), snd (kvs ! i)})
           \<and> req_path r =
               opt_path opts @ (if CHR ''?'' \<in> set (opt_path opts) then ''&'' else ''?'')
                 @ join ''&'' (map (\<lambda>a. encodeURIComponent (fst a) @ ''=''
                                           @ encodeURIComponent (snd a)) args)"
proof -
  let ?args = "map (\<lambda>kv. (snd kv, JStr (fst kv))) kvs"
  have n: "normalize_params (JObj kvs) = JObj kvs"
    using assms(3) by (simp add: normalize_params_def)
  obtain r where r: "makeRequest w c opts (JObj kvs) =
            (c\<lparr>headers := req_headers r, sent := sent c @ [r]\<rparr>,
             on_response w (transport w (length (sent c)) r))"
     and p: "req_path r = (if opt_method opts = ''GET''
                     then foldl (\<lambda>p kv. addGetParameter p (fst kv) (snd kv))
                            (opt_path opts) (each_args (normalize_params (JObj kvs)))
                     else opt_path opts)"
     and b: "req_body r = (if opt_method opts = ''GET'' then normalize_params (JObj kvs)
                     else stringify_val (normalize_params (JObj kvs)))"
    using makeRequest_sends [OF assms(1), of w opts "JObj kvs"] by blast
  have s: "sent (fst (makeRequest w c opts (JObj kvs))) = sent c @ [r]"
    by (simp add: r)
  have body: "req_body r = JObj kvs"
    using b n assms(2) by simp
  have len: "length ?args = length kvs"
    by simp
  have pairs: "\<forall>i<length kvs. {fst (?args ! i), snd (?args ! i)}
                                = {JStr (fst (kvs ! i)), snd (kvs ! i)}"
    by auto
  have ne: "?args \<noteq> []"
    using assms(3) by simp
  have ea: "each_args (JObj kvs) = ?args"
    using assms(4) by (simp add: not_number_not_array_like)
  have path: "req_path r =
               opt_path opts @ (if CHR ''?'' \<in> set (opt_path opts) then ''&'' else ''?'')
                 @ join ''&'' (map (\<lambda>a. encodeURIComponent (fst a) @ ''=''
                                           @ encodeURIComponent (snd a)) ?args)"
    using p n ea assms(2) foldl_addGetParameter [OF ne, of "opt_path opts"] by simp
  show ?thesis
    apply (rule exI [where x = r], rule exI [where x = ?args])
    apply (intro conjI)
        apply (rule s, rule body, rule len, rule pairs, rule path)
    done
qed

theorem makeRequest_GET_params_witness:
  "\<not> missing_credentials (account demo_client)
   \<and> opt_method \<lparr>opt_path = ''/x'', opt_method = ''GET''\<rparr> = ''GET''
   \<and> [(''a'', JStr ''1''), (''b'', JStr ''2'')] \<noteq> []
   \<and> \<not> is_number (obj_get [(''a'', JStr ''1''), (''b'', JStr ''2'')] ''length'')
   \<and> list_all converts (map snd [(''a'', JStr ''1''), (''b'', JStr ''2'')])
   \<and> (\<exists>r args. sent (fst (makeRequest (demo_world ''[]'') demo_client \<lparr>opt_path = ''/x'', opt_method = ''GET''\<rparr> (JObj [(''a'', JStr ''1''), (''b'', JStr ''2'')]))) = sent demo_client @ [r]
           \<and> req_body r = JObj [(''a'', JStr ''1''), (''b'', JStr ''2'')]
           \<and> length args = length [(''a'', JStr ''1''), (''b'', JStr ''2'')]
           \<and> (\<forall>i<length [(''a'', JStr ''1''), (''b'', JStr ''2'')]. {fst (args ! i), snd (args ! i)}
                                = {JStr (fst ([(''a'', JStr ''1''), (''b'', JStr ''2'')] ! i)), snd ([(''a'', JStr ''1''), (''b'', JStr ''2'')] ! i)})
           \<and> req_path r =
               opt_path \<lparr>opt_path = ''/x'', opt_method = ''GET''\<rparr> @ (if CHR ''?'' \<in> set (opt_path \<lparr>opt_path = ''/x'', opt_method = ''GET''\<rparr>) then ''&'' else ''?'')
                 @ join ''&'' (map (\<lambda>a. encodeURIComponent (fst a) @ ''=''
                                           @ encodeURIComponent (snd a)) args))
   \<and> map req_body (sent (fst (makeRequest (demo_world ''[]'') demo_client \<lparr>opt_path = ''/x'', opt_method = ''GET''\<rparr> (JObj [(''a'', JStr ''1''), (''b'', JStr ''2'')]))))
       = [JObj [(''a'', JStr ''1''), (''b'', JStr ''2'')]]"
proof -
  have h1: "\<not> missing_credentials (account demo_client)"
    by code_simp
  have h2: "opt_method \<lparr>opt_path = ''/x'', opt_method = ''GET''\<rparr> = ''GET''"
    by simp
  have h3: "[(''a'', JStr ''1''), (''b'', JStr ''2'')] \<noteq> []"
    by simp
  have h4: "\<not> is_number (obj_get [(''a'', JStr ''1''), (''b'', JStr ''2'')] ''length'')"
    by code_simp
  have h5: "list_all converts (map snd [(''a'', JStr ''1''), (''b'', JStr ''2'')])"
    by simp
  have e: "map req_body (sent (fst (makeRequest (demo_world ''[]'') demo_client \<lparr>opt_path = ''/x'', opt_method = ''GET''\<rparr> (JObj [(''a'', JStr ''1''), (''b'', JStr ''2'')]))))
       = [JObj [(''a'', JStr ''1''), (''b'', JStr ''2'')]]"
    by code_simp
  note t = makeRequest_GET_params [OF h1 h2 h3 h4 h5, of "demo_world ''[]''"]
  show ?thesis
    by (rule conjI [OF h1 conjI [OF h2 conjI [OF h3 conjI [OF h4 conjI [OF h5 conjI [OF t e]]]]]])
qed

text \<open>
  The claim as stated fails: for the parameters \<^verbatim>\<open>{a: "1"}\<close> on the list route, the body
  passed to the transport is the object, not the empty string, and the path sent is
  \<^verbatim>\<open>/account/flos?1=a\<close>.
\<close>

theorem makeRequest_GET_body_counterexample:
  "map req_body (sent (fst (makeRequest (demo_world ''[]'') demo_client routes_flos
      (JObj [(''a'', JStr ''1'')])))) = [JObj [(''a'', JStr ''1'')]]
   \<and> map req_path (sent (fst (makeRequest (demo_world ''[]'') demo_client routes_flos
      (JObj [(''a'', JStr ''1'')])))) = [''/account/flos?1=a'']"
  by code_simp


text \<open>
  Underscore iterates the parameters \<^verbatim>\<open>{length: 2}\<close> by index: the two query parameters
  are made of the indices and of the values under them, which are \<^verbatim>\<open>undefined\<close>.
\<close>

lemma makeRequest_GET_array_like_example:
  "map req_path (sent (fst (makeRequest (demo_world ''[]'') demo_client routes_flos
      (JObj [(''length'', JNum 2)])))) = [''/account/flos?undefined=0&undefined=1'']"
  by code_simp

section \<open>Missing credentials\<close>

lemma makeRequest_missing:
  "missing_credentials (account c) \<Longrightarrow>
     makeRequest w c opts params = (c, Cb_error (ErrorObj ''Account information not found''))"
  by (simp add: makeRequest_def)

lemma flos_missing:
  assumes "missing_credentials (account c)" and "floMap c = None \<or> refresh"
  shows "flos w c refresh =
           (c\<lparr>refreshes := Suc (refreshes c)\<rparr>,
            Cb_error (ErrorObj ''Account information not found''))"
proof -
  have "missing_credentials (account (c\<lparr>refreshes := Suc (refreshes c)\<rparr>))"
    using assms(1) by simp
  then have "makeRequest w (c\<lparr>refreshes := Suc (refreshes c)\<rparr>) routes_flos JNull =
               (c\<lparr>refreshes := Suc (refreshes c)\<rparr>,
                Cb_error (ErrorObj ''Account information not found''))"
    by (rule makeRequest_missing)
  then show ?thesis
    using assms(2) by (auto simp: flos_def)
qed

text \<open>The three ways in which a call of \<^verbatim>\<open>invoke\<close> starts.\<close>

lemma invoke_throws_in_lookup:
  "resolve w c flo force = None \<Longrightarrow>
     invoke (Suc n) w c flo data force = Some (c, Uncaught ''TypeError'')"
  by simp

lemma invoke_dispatches:
  "resolve w c flo force = Some used \<Longrightarrow> truthy_f used \<Longrightarrow>
     invoke (Suc n) w c flo data force =
       (case replace_with ''/flo/:id/invoke'' '':id'' used of
          None \<Rightarrow> Some (c, Uncaught ''TypeError'')
        | Some p \<Rightarrow> Some (makeRequest w c \<lparr>opt_path = p, opt_method = ''POST''\<rparr> data))"
  by (simp add: routes_invoke_def split: option.split)

lemma invoke_refreshes:
  "resolve w c flo force = Some used \<Longrightarrow> \<not> truthy_f used \<Longrightarrow>
     invoke (Suc n) w c flo data force =
       (case flos w c True of
          (c1, Cb_data names) \<Rightarrow>
            (case floMap c1 of
               None \<Rightarrow> Some (c1, Uncaught ''TypeError'')
             | Some m \<Rightarrow>
                 (case getAlias w m (stale flo) of
                    None \<Rightarrow> Some (c1, Uncaught ''TypeError'')
                  | Some found \<Rightarrow>
                      if truthy_f found then invoke n w c1 found data False
                      else Some (c1, Cb_error (ErrorObj ''Flo not found''))))
        | (c1, Cb_error e) \<Rightarrow> Some (c1, Cb_error e)
        | (c1, Uncaught x) \<Rightarrow> Some (c1, Uncaught x))"
  by simp

text \<open>
  C4, as amended. If the access key or the access secret is absent or empty on the client,
  every operation that reaches the request machinery fails at once with the error
  \<open>Account information not found\<close>, with no use of the digest, the clock or the
  transport: \<^verbatim>\<open>makeRequest\<close> always; \<^verbatim>\<open>flos\<close> when a refresh is asked for or the cache was
  never filled; and \<^verbatim>\<open>invoke\<close> whenever the lookup of the name returns and the path of the
  request, if one is to be dispatched, can be built. Without credentials no call of
  \<^verbatim>\<open>invoke\<close> hands a request to the transport, and the only change of state is the count
  of refresh attempts.
\<close>

theorem missing_credentials_fail:
  assumes "missing_credentials (account c)"
  shows "makeRequest w c opts params =
           (c, Cb_error (ErrorObj ''Account information not found''))
       \<and> (\<exists>c' out. invoke (Suc n) w c flo data force = Some (c', out) \<and> sent c' = sent c)
       \<and> (\<forall>used. resolve w c flo force = Some used
              \<and> (truthy_f used \<longrightarrow> replace_with ''/flo/:id/invoke'' '':id'' used \<noteq> None)
            \<longrightarrow> (\<exists>c'. invoke (Suc n) w c flo data force =
                        Some (c', Cb_error (ErrorObj ''Account information not found''))
                     \<and> sent c' = sent c
                     \<and> (c' = c \<or> c' = c\<lparr>refreshes := Suc (refreshes c)\<rparr>)))
       \<and> (floMap c = None \<or> refresh \<longrightarrow>
            flos w c refresh =
              (c\<lparr>refreshes := Suc (refreshes c)\<rparr>,
               Cb_error (ErrorObj ''Account information not found'')))"
proof -
  let ?err = "Cb_error (ErrorObj ''Account information not found'')"
  have m: "makeRequest w c opts params = (c, ?err)" for opts params
    using assms by (rule makeRequest_missing)
  have f: "flos w c True = (c\<lparr>refreshes := Suc (refreshes c)\<rparr>, ?err)"
    using assms by (simp add: flos_missing)
  have fl: "floMap c = None \<or> refresh \<longrightarrow>
            flos w c refresh = (c\<lparr>refreshes := Suc (refreshes c)\<rparr>, ?err)"
    using assms by (simp add: flos_missing)
  have good: "\<exists>c'. invoke (Suc n) w c flo data force = Some (c', ?err) \<and> sent c' = sent c
                 \<and> (c' = c \<or> c' = c\<lparr>refreshes := Suc (refreshes c)\<rparr>)"
    if r: "resolve w c flo force = Some used"
      and p: "truthy_f used \<longrightarrow> replace_with ''/flo/:id/invoke'' '':id'' used \<noteq> None"
    for used
  proof (cases "truthy_f used")
    case True
    then obtain q where q: "replace_with ''/flo/:id/invoke'' '':id'' used = Some q"
      using p by blast
    have "invoke (Suc n) w c flo data force = Some (c, ?err)"
      using invoke_dispatches [OF r True, of n data] q m by simp
    then show ?thesis by simp
  next
    case False
    have "invoke (Suc n) w c flo data force = Some (c\<lparr>refreshes := Suc (refreshes c)\<rparr>, ?err)"
      using invoke_refreshes [OF r False, of n data] f by simp
    then show ?thesis by simp
  qed
  have any: "\<exists>c' out. invoke (Suc n) w c flo data force = Some (c', out) \<and> sent c' = sent c"
  proof (cases "resolve w c flo force")
    case None
    then show ?thesis
      using invoke_throws_in_lookup [of w c flo force n data] by simp
  next
    case (Some used)
    show ?thesis
    proof (cases "truthy_f used \<and> replace_with ''/flo/:id/invoke'' '':id'' used = None")
      case True
      then have "invoke (Suc n) w c flo data force = Some (c, Uncaught ''TypeError'')"
        using invoke_dispatches [OF Some, of n data] by simp
      then show ?thesis by simp
    next
      case False
      then have "truthy_f used \<longrightarrow> replace_with ''/flo/:id/invoke'' '':id'' used \<noteq> None"
        by simp
      from good [OF Some this] show ?thesis by blast
    qed
  qed
  have cond: "\<forall>used. resolve w c flo force = Some used
              \<and> (truthy_f used \<longrightarrow> replace_with ''/flo/:id/invoke'' '':id'' used \<noteq> None)
            \<longrightarrow> (\<exists>c'. invoke (Suc n) w c flo data force = Some (c', ?err)
                     \<and> sent c' = sent c
                     \<and> (c' = c \<or> c' = c\<lparr>refreshes := Suc (refreshes c)\<rparr>))"
    using good by blast
  show ?thesis
    by (rule conjI [OF m conjI [OF any conjI [OF cond fl]]])
qed


theorem missing_credentials_fail_witness:
  "missing_credentials (account (demo_client\<lparr>account := None\<rparr>))
   \<and> makeRequest (demo_world ''[]'') (demo_client\<lparr>account := None\<rparr>) routes_flos JNull
       = (demo_client\<lparr>account := None\<rparr>, Cb_error (ErrorObj ''Account information not found''))
   \<and> (\<exists>c' out. invoke (Suc 0) (demo_world ''[]'') (demo_client\<lparr>account := None\<rparr>)
                    (Val (JStr ''billing'')) JNull False = Some (c', out)
          \<and> sent c' = sent (demo_client\<lparr>account := None\<rparr>))
   \<and> resolve (demo_world ''[]'') (demo_client\<lparr>account := None\<rparr>) (Val (JStr ''billing'')) False
       = Some (Val JUndefined)
   \<and> \<not> truthy_f (Val JUndefined)
   \<and> (\<exists>c'. invoke (Suc 0) (demo_world ''[]'') (demo_client\<lparr>account := None\<rparr>)
                (Val (JStr ''billing'')) JNull False
              = Some (c', Cb_error (ErrorObj ''Account information not found''))
          \<and> sent c' = sent (demo_client\<lparr>account := None\<rparr>)
          \<and> (c' = demo_client\<lparr>account := None\<rparr>
               \<or> c' = (demo_client\<lparr>account := None\<rparr>)
                        \<lparr>refreshes := Suc (refreshes (demo_client\<lparr>account := None\<rparr>))\<rparr>))
   \<and> missing_credentials (account (demo_client\<lparr>account := None, floMap := Some demo_cache\<rparr>))
   \<and> resolve (demo_world ''[]'') (demo_client\<lparr>account := None, floMap := Some demo_cache\<rparr>)
         (Val (JStr ''billing'')) False = Some (Val (JStr ''az1''))
   \<and> replace_with ''/flo/:id/invoke'' '':id'' (Val (JStr ''az1'')) = Some ''/flo/az1/invoke''
   \<and> (\<exists>c'. invoke (Suc 0) (demo_world ''[]'')
                (demo_client\<lparr>account := None, floMap := Some demo_cache\<rparr>)
                (Val (JStr ''billing'')) JNull False
              = Some (c', Cb_error (ErrorObj ''Account information not found''))
          \<and> sent c' = sent (demo_client\<lparr>account := None, floMap := Some demo_cache\<rparr>)
          \<and> (c' = demo_client\<lparr>account := None, floMap := Some demo_cache\<rparr>
               \<or> c' = (demo_client\<lparr>account := None, floMap := Some demo_cache\<rparr>)
                        \<lparr>refreshes :=
                           Suc (refreshes (demo_client\<lparr>account := None,
                                                        floMap := Some demo_cache\<rparr>))\<rparr>))
   \<and> flos (demo_world ''[]'') (demo_client\<lparr>account := None\<rparr>) True =
        ((demo_client\<lparr>account := None\<rparr>)
           \<lparr>refreshes := Suc (refreshes (demo_client\<lparr>account := None\<rparr>))\<rparr>,
         Cb_error (ErrorObj ''Account information not found''))"
proof -
  have h: "missing_credentials (account (demo_client\<lparr>account := None\<rparr>))"
    by code_simp
  have h': "missing_credentials (account (demo_client\<lparr>account := None, floMap := Some demo_cache\<rparr>))"
    by code_simp
  have r1: "resolve (demo_world ''[]'') (demo_client\<lparr>account := None\<rparr>) (Val (JStr ''billing'')) False
       = Some (Val JUndefined)"
    by code_simp
  have f1: "\<not> truthy_f (Val JUndefined)"
    by simp
  have r2: "resolve (demo_world ''[]'') (demo_client\<lparr>account := None, floMap := Some demo_cache\<rparr>)
         (Val (JStr ''billing'')) False = Some (Val (JStr ''az1''))"
    by code_simp
  have p2: "replace_with ''/flo/:id/invoke'' '':id'' (Val (JStr ''az1'')) = Some ''/flo/az1/invoke''"
    by code_simp
  have g1: "resolve (demo_world ''[]'') (demo_client\<lparr>account := None\<rparr>) (Val (JStr ''billing'')) False
              = Some (Val JUndefined)
            \<and> (truthy_f (Val JUndefined) \<longrightarrow>
                  replace_with ''/flo/:id/invoke'' '':id'' (Val JUndefined) \<noteq> None)"
    using r1 f1 by simp
  have g2: "resolve (demo_world ''[]'') (demo_client\<lparr>account := None, floMap := Some demo_cache\<rparr>)
              (Val (JStr ''billing'')) False = Some (Val (JStr ''az1''))
            \<and> (truthy_f (Val (JStr ''az1'')) \<longrightarrow>
                  replace_with ''/flo/:id/invoke'' '':id'' (Val (JStr ''az1'')) \<noteq> None)"
    using r2 p2 by simp
  note t = missing_credentials_fail [OF h, where w = "demo_world ''[]''" and opts = routes_flos
             and params = JNull and n = 0 and flo = "Val (JStr ''billing'')" and data = JNull
             and force = False and refresh = True]
  note t' = missing_credentials_fail [OF h', where w = "demo_world ''[]''" and n = 0
              and flo = "Val (JStr ''billing'')" and data = JNull and force = False]
  note a = conjunct1 [OF t]
  note b = conjunct1 [OF conjunct2 [OF t]]
  note c = mp [OF spec [OF conjunct1 [OF conjunct2 [OF conjunct2 [OF t]]]] g1]
  note c' = mp [OF spec [OF conjunct1 [OF conjunct2 [OF conjunct2 [OF t']]]] g2]
  have d: "flos (demo_world ''[]'') (demo_client\<lparr>account := None\<rparr>) True =
        ((demo_client\<lparr>account := None\<rparr>)
           \<lparr>refreshes := Suc (refreshes (demo_client\<lparr>account := None\<rparr>))\<rparr>,
         Cb_error (ErrorObj ''Account information not found''))"
    by (rule mp [OF conjunct2 [OF conjunct2 [OF conjunct2 [OF t]]]], rule disjI2, rule TrueI)
  show ?thesis
    by (rule conjI [OF h conjI [OF a conjI [OF b conjI [OF r1 conjI [OF f1 conjI [OF c
          conjI [OF h' conjI [OF r2 conjI [OF p2 conjI [OF c' d]]]]]]]]]])
qed

text \<open>
  The claim as stated fails for \<^verbatim>\<open>flos\<close> on a filled cache: without credentials and
  without a refresh it returns the cached names. It fails also for \<^verbatim>\<open>invoke\<close> with the name
  \<^verbatim>\<open>hasOwnProperty\<close>, which throws before the credentials are looked at.
\<close>

theorem flos_cached_without_credentials_counterexample:
  "missing_credentials
     (account (demo_client\<lparr>account := Some \<lparr>accessKey = None, accessSecret = None\<rparr>,
                            floMap := Some demo_cache\<rparr>))
   \<and> snd (flos (demo_world ''[]'')
        (demo_client\<lparr>account := Some \<lparr>accessKey = None, accessSecret = None\<rparr>,
                      floMap := Some demo_cache\<rparr>) False)
       = Cb_data (JArr [JStr ''billing''])
   \<and> map_option snd
        (invoke (Suc 0) (demo_world ''[]'')
           (demo_client\<lparr>account := Some \<lparr>accessKey = None, accessSecret = None\<rparr>\<rparr>)
           (Val (JStr ''hasOwnProperty'')) JNull False)
       = Some (Uncaught ''TypeError'')"
  by code_simp

section \<open>Responses that are not JSON\<close>

text \<open>
  When the transport reports success and the body is not JSON, \<^verbatim>\<open>makeRequest\<close> calls its
  callback with the raw body as the error value.
\<close>

lemma makeRequest_unparsable:
  assumes "\<not> missing_credentials (account c)"
      and "\<forall>r. transport w (length (sent c)) r = Response body"
      and "JSON_parse w body = None"
  shows "\<exists>c'. makeRequest w c opts params = (c', Cb_error (RawBody body))"
proof -
  obtain r where r: "makeRequest w c opts params =
            (c\<lparr>headers := req_headers r, sent := sent c @ [r]\<rparr>,
             on_response w (transport w (length (sent c)) r))"
    using makeRequest_sends [OF assms(1), of w opts params] by blast
  have t: "transport w (length (sent c)) r = Response body"
    using assms(2) by (rule spec)
  have "on_response w (Response body) = Cb_error (RawBody body)"
    using assms(3) by (simp add: on_response_def)
  with r t show ?thesis by simp
qed

text \<open>\<^verbatim>\<open>flos\<close> passes that error value on when the body is not empty.\<close>

lemma flos_unparsable:
  assumes "\<not> missing_credentials (account c)"
      and "\<forall>r. transport w (length (sent c)) r = Response body"
      and "JSON_parse w body = None"
      and "floMap c = None \<or> refresh"
      and "body \<noteq> []"
  shows "\<exists>c'. flos w c refresh = (c', Cb_error (RawBody body))"
proof -
  let ?c0 = "c\<lparr>refreshes := Suc (refreshes c)\<rparr>"
  have a: "\<not> missing_credentials (account ?c0)"
    using assms(1) by simp
  have b: "\<forall>r. transport w (length (sent ?c0)) r = Response body"
    using assms(2) by simp
  obtain c' where m: "makeRequest w ?c0 routes_flos JNull = (c', Cb_error (RawBody body))"
    using makeRequest_unparsable [OF a b assms(3)] by blast
  have "flos w c refresh = (c', Cb_error (RawBody body))"
    using assms(4) assms(5) m by (auto simp: flos_def)
  then show ?thesis by blast
qed

text \<open>
  C10 says that a response whose body is not valid JSON is reported as a failure, by
  \<^verbatim>\<open>makeRequest\<close> and therefore by \<^verbatim>\<open>invoke\<close> and \<^verbatim>\<open>flos\<close>, with the raw body as the error
  value. The code breaks this where the body is the empty string, which is not JSON.
  \<^verbatim>\<open>makeRequest\<close> calls the callback of \<^verbatim>\<open>flos\<close> with the empty string as the error value;
  that callback tests it with \<^verbatim>\<open>if(error)\<close>, finds it not truthy and takes the branch of a
  successful list call, with \<^verbatim>\<open>undefined\<close> for the workflows. \<^verbatim>\<open>flos\<close> replaces the cache
  by an empty one, also a cache that was filled, and then either completes with an empty
  list of names or throws, as \<^verbatim>\<open>async.each\<close> decides; it does not report the failure. A
  body that is not empty and not JSON is reported.
\<close>

theorem flos_empty_body_not_reported:
  "JSON_parse (demo_world []) [] = None
   \<and> snd (makeRequest (demo_world []) demo_client routes_flos JNull) = Cb_error (RawBody [])
   \<and> snd (flos (demo_world []) demo_client True) = Cb_data (JArr [])
   \<and> floMap (fst (flos (demo_world []) (demo_client\<lparr>floMap := Some demo_cache\<rparr>) True))
       = Some empty_cache
   \<and> snd (flos ((demo_world [])\<lparr>each_other := (\<lambda>v. None)\<rparr>) demo_client True)
       = Uncaught ''TypeError''
   \<and> JSON_parse (demo_world ''<html>'') ''<html>'' = None
   \<and> snd (flos (demo_world ''<html>'') demo_client True) = Cb_error (RawBody ''<html>'')"
  by code_simp

section \<open>Forced invocation\<close>

lemma replace_with_string:
  "replace_with s pat (Val (JStr a)) = Some (js_replace s pat a)"
  by (simp add: replace_with_def ToString_def)

lemma expand_replacement_plain:
  "CHR ''$'' \<notin> set r \<Longrightarrow> expand_replacement pre matched post r = r"
  by (induction pre matched post r rule: expand_replacement.induct) auto

lemma split_first_id: "split_first '':id'' [] ''/flo/:id/invoke'' = Some (''/flo/'', ''/invoke'')"
  by code_simp

lemma js_replace_id:
  "CHR ''$'' \<notin> set r \<Longrightarrow> js_replace ''/flo/:id/invoke'' '':id'' r = ''/flo/'' @ r @ ''/invoke''"
  by (simp add: js_replace_def split_first_id expand_replacement_plain del: split_first.simps)

lemma makeRequest_refreshes: "refreshes (fst (makeRequest w c opts params)) = refreshes c"
proof (cases "missing_credentials (account c)")
  case True
  then show ?thesis by (simp add: makeRequest_def)
next
  case False
  then obtain r where "makeRequest w c opts params =
            (c\<lparr>headers := req_headers r, sent := sent c @ [r]\<rparr>,
             on_response w (transport w (length (sent c)) r))"
    using makeRequest_sends [of c w opts params] by blast
  then show ?thesis by simp
qed

lemma getAlias_string_defined: "\<exists>found. getAlias w C (Val (JStr s)) = Some found"
  by (simp add: getAlias_def key_of_string Let_def)

text \<open>
  C3, as amended. For every name that is not the empty string,
  \<^verbatim>\<open>invoke(name, payload, force=true)\<close> never triggers a refresh of the cache. It looks the
  name up in the cache first: when the lookup returns an alias, a string that is not
  empty, the request is dispatched with that alias; when the lookup returns nothing, the
  request is dispatched with the name itself as the alias. The alias is substituted for
  \<^verbatim>\<open>:id\<close> in the invoke route by \<^verbatim>\<open>String.replace\<close>, so a name without a dollar sign is
  substituted verbatim.
\<close>

theorem invoke_forced:
  assumes "name \<noteq> []"
  shows "(\<exists>c' out. invoke (Suc n) w c (Val (JStr name)) data True = Some (c', out)
            \<and> refreshes c' = refreshes c)
       \<and> (\<forall>a. getAlias w (cache_of c) (Val (JStr name)) = Some (Val (JStr a)) \<and> a \<noteq> [] \<longrightarrow>
            invoke (Suc n) w c (Val (JStr name)) data True =
              Some (makeRequest w c
                \<lparr>opt_path = js_replace ''/flo/:id/invoke'' '':id'' a, opt_method = ''POST''\<rparr>
                data))
       \<and> ((\<exists>found. getAlias w (cache_of c) (Val (JStr name)) = Some found \<and> \<not> truthy_f found)
            \<and> CHR ''$'' \<notin> set name \<longrightarrow>
            invoke (Suc n) w c (Val (JStr name)) data True =
              Some (makeRequest w c
                \<lparr>opt_path = ''/flo/'' @ name @ ''/invoke'', opt_method = ''POST''\<rparr> data))"
proof -
  let ?flo = "Val (JStr name)"
  obtain found where g: "getAlias w (cache_of c) ?flo = Some found"
    using getAlias_string_defined by blast
  let ?used = "if \<not> truthy_f found \<and> True then ?flo else found"
  have r: "resolve w c ?flo True = Some ?used"
    using g by (simp add: resolve_def)
  have t: "truthy_f ?used"
    using assms by simp
  note step = invoke_dispatches [OF r t, of n data]
  have ex: "\<exists>c' out. invoke (Suc n) w c ?flo data True = Some (c', out)
            \<and> refreshes c' = refreshes c"
  proof (cases "replace_with ''/flo/:id/invoke'' '':id'' ?used")
    case None
    then have "invoke (Suc n) w c ?flo data True = Some (c, Uncaught ''TypeError'')"
      using step by simp
    then show ?thesis by simp
  next
    case (Some p)
    let ?res = "makeRequest w c \<lparr>opt_path = p, opt_method = ''POST''\<rparr> data"
    have "invoke (Suc n) w c ?flo data True = Some (fst ?res, snd ?res)"
      using step Some by simp
    moreover have "refreshes (fst ?res) = refreshes c"
      by (rule makeRequest_refreshes)
    ultimately show ?thesis by blast
  qed
  have hit: "\<forall>a. getAlias w (cache_of c) ?flo = Some (Val (JStr a)) \<and> a \<noteq> [] \<longrightarrow>
            invoke (Suc n) w c ?flo data True =
              Some (makeRequest w c
                \<lparr>opt_path = js_replace ''/flo/:id/invoke'' '':id'' a, opt_method = ''POST''\<rparr>
                data)"
  proof (intro allI impI)
    fix a
    assume a: "getAlias w (cache_of c) ?flo = Some (Val (JStr a)) \<and> a \<noteq> []"
    then have "found = Val (JStr a)"
      using g by simp
    then show "invoke (Suc n) w c ?flo data True =
              Some (makeRequest w c
                \<lparr>opt_path = js_replace ''/flo/:id/invoke'' '':id'' a, opt_method = ''POST''\<rparr>
                data)"
      using step a by (simp add: replace_with_string)
  qed
  have miss: "(\<exists>found. getAlias w (cache_of c) ?flo = Some found \<and> \<not> truthy_f found)
            \<and> CHR ''$'' \<notin> set name \<longrightarrow>
            invoke (Suc n) w c ?flo data True =
              Some (makeRequest w c
                \<lparr>opt_path = ''/flo/'' @ name @ ''/invoke'', opt_method = ''POST''\<rparr> data)"
  proof
    assume a: "(\<exists>found. getAlias w (cache_of c) ?flo = Some found \<and> \<not> truthy_f found)
                 \<and> CHR ''$'' \<notin> set name"
    then have "\<not> truthy_f found"
      using g by auto
    then show "invoke (Suc n) w c ?flo data True =
              Some (makeRequest w c
                \<lparr>opt_path = ''/flo/'' @ name @ ''/invoke'', opt_method = ''POST''\<rparr> data)"
      using step a by (simp add: replace_with_string js_replace_id)
  qed
  show ?thesis
    by (rule conjI [OF ex conjI [OF hit miss]])
qed

theorem invoke_forced_witness:
  "''az9'' \<noteq> []
   \<and> (\<exists>c' out. invoke (Suc 0) (demo_world ''[]'') demo_client (Val (JStr ''az9'')) JNull True
                   = Some (c', out)
          \<and> refreshes c' = refreshes demo_client)
   \<and> getAlias (demo_world ''[]'') (cache_of demo_client) (Val (JStr ''az9'')) = Some (Val JUndefined)
   \<and> \<not> truthy_f (Val JUndefined)
   \<and> CHR ''$'' \<notin> set ''az9''
   \<and> invoke (Suc 0) (demo_world ''[]'') demo_client (Val (JStr ''az9'')) JNull True =
        Some (makeRequest (demo_world ''[]'') demo_client
                \<lparr>opt_path = ''/flo/'' @ ''az9'' @ ''/invoke'', opt_method = ''POST''\<rparr> JNull)
   \<and> ''billing'' \<noteq> []
   \<and> getAlias (demo_world ''[]'') (cache_of (demo_client\<lparr>floMap := Some demo_cache\<rparr>))
         (Val (JStr ''billing'')) = Some (Val (JStr ''az1''))
   \<and> ''az1'' \<noteq> []
   \<and> invoke (Suc 0) (demo_world ''[]'') (demo_client\<lparr>floMap := Some demo_cache\<rparr>)
         (Val (JStr ''billing'')) JNull True =
        Some (makeRequest (demo_world ''[]'') (demo_client\<lparr>floMap := Some demo_cache\<rparr>)
                \<lparr>opt_path = js_replace ''/flo/:id/invoke'' '':id'' ''az1'',
                 opt_method = ''POST''\<rparr> JNull)
   \<and> js_replace ''/flo/:id/invoke'' '':id'' ''az1'' = ''/flo/az1/invoke''"
proof -
  have h1: "''az9'' \<noteq> []"
    by simp
  have h2: "''billing'' \<noteq> []"
    by simp
  have h3: "''az1'' \<noteq> []"
    by simp
  have g1: "getAlias (demo_world ''[]'') (cache_of demo_client) (Val (JStr ''az9''))
              = Some (Val JUndefined)"
    by code_simp
  have f1: "\<not> truthy_f (Val JUndefined)"
    by simp
  have d1: "CHR ''$'' \<notin> set ''az9''"
    by simp
  have g2: "getAlias (demo_world ''[]'') (cache_of (demo_client\<lparr>floMap := Some demo_cache\<rparr>))
         (Val (JStr ''billing'')) = Some (Val (JStr ''az1''))"
    by code_simp
  have j: "js_replace ''/flo/:id/invoke'' '':id'' ''az1'' = ''/flo/az1/invoke''"
    by code_simp
  have miss: "(\<exists>found. getAlias (demo_world ''[]'') (cache_of demo_client) (Val (JStr ''az9''))
                        = Some found \<and> \<not> truthy_f found)
              \<and> CHR ''$'' \<notin> set ''az9''"
    using g1 f1 d1 by simp
  have hit: "getAlias (demo_world ''[]'') (cache_of (demo_client\<lparr>floMap := Some demo_cache\<rparr>))
               (Val (JStr ''billing'')) = Some (Val (JStr ''az1'')) \<and> ''az1'' \<noteq> []"
    using g2 by simp
  note t1 = invoke_forced [OF h1, where n = 0 and w = "demo_world ''[]''" and c = demo_client
              and data = JNull]
  note t2 = invoke_forced [OF h2, where n = 0 and w = "demo_world ''[]''"
              and c = "demo_client\<lparr>floMap := Some demo_cache\<rparr>" and data = JNull]
  note a = conjunct1 [OF t1]
  note b = mp [OF conjunct2 [OF conjunct2 [OF t1]] miss]
  note c = mp [OF spec [OF conjunct1 [OF conjunct2 [OF t2]]] hit]
  show ?thesis
    by (rule conjI [OF h1 conjI [OF a conjI [OF g1 conjI [OF f1 conjI [OF d1 conjI [OF b
          conjI [OF h2 conjI [OF g2 conjI [OF h3 conjI [OF c j]]]]]]]]]])
qed

text \<open>
  The claim as stated fails for a name that the cache resolves: forced or not, the request
  goes to the cached alias, not to the name. It fails for the empty name, which triggers a
  refresh although the call is forced, and for the name \<^verbatim>\<open>constructor\<close>, which the lookup
  resolves to an inherited function: the path of the request does not hold the name.
\<close>

theorem invoke_forced_cached_counterexample:
  "map_option (\<lambda>r. map req_path (sent (fst r)))
      (invoke (Suc 0) (demo_world ''[]'') (demo_client\<lparr>floMap := Some demo_cache\<rparr>)
         (Val (JStr ''billing'')) JNull True)
     = Some [''/flo/az1/invoke'']
   \<and> map_option (\<lambda>r. refreshes (fst r))
      (invoke (Suc 0) (demo_world ''[]'') demo_client (Val (JStr [])) JNull True) = Some 1
   \<and> refreshes demo_client = 0
   \<and> map_option (\<lambda>r. map req_path (sent (fst r)))
      (invoke (Suc 0) (demo_world ''[]'') demo_client (Val (JStr ''constructor'')) JNull True)
     = Some [''/flo/:id/invoke'']"
  by code_simp

section \<open>Invocation through the cache\<close>

lemma makeRequest_sent:
  "\<exists>new. sent (fst (makeRequest w c opts params)) = sent c @ new \<and> length new \<le> 1
         \<and> (\<forall>q\<in>set new. req_method q = opt_method opts)"
proof (cases "missing_credentials (account c)")
  case True
  then have "sent (fst (makeRequest w c opts params)) = sent c @ []"
    by (simp add: makeRequest_def)
  then show ?thesis by fastforce
next
  case False
  then obtain r where "makeRequest w c opts params =
            (c\<lparr>headers := req_headers r, sent := sent c @ [r]\<rparr>,
             on_response w (transport w (length (sent c)) r))"
       and "req_method r = opt_method opts"
    using makeRequest_sends [of c w opts params] by blast
  then have "sent (fst (makeRequest w c opts params)) = sent c @ [r] \<and> length [r] \<le> 1
         \<and> (\<forall>q\<in>set [r]. req_method q = opt_method opts)"
    by simp
  then show ?thesis by blast
qed

lemma flos_store_props:
  assumes "flos_store w c v = (c', out)"
  shows "refreshes c' = refreshes c \<and> sent c' = sent c \<and> floMap c' \<noteq> None"
  using assms
  by (auto simp: flos_store_def Let_def split: option.splits prod.splits)

lemma flos_refresh_props:
  assumes "flos w c True = (c1, r)"
  shows "refreshes c1 = Suc (refreshes c)
       \<and> (\<exists>new. sent c1 = sent c @ new \<and> length new \<le> 1
                 \<and> (\<forall>q\<in>set new. req_method q = ''GET''))
       \<and> ((\<exists>names. r = Cb_data names) \<longrightarrow> floMap c1 \<noteq> None)"
proof -
  let ?c0 = "c\<lparr>refreshes := Suc (refreshes c)\<rparr>"
  obtain cm rm where m: "makeRequest w ?c0 routes_flos JNull = (cm, rm)"
    by (cases "makeRequest w ?c0 routes_flos JNull") auto
  have cm: "cm = fst (makeRequest w ?c0 routes_flos JNull)"
    by (simp add: m)
  have rc: "refreshes cm = Suc (refreshes c)"
    using makeRequest_refreshes [of w ?c0 routes_flos JNull] cm by simp
  obtain new where new: "sent cm = sent c @ new" "length new \<le> 1"
      "\<forall>q\<in>set new. req_method q = ''GET''"
    using makeRequest_sent [of w ?c0 routes_flos JNull] cm
    by (auto simp: routes_flos_def)
  have direct: "c1 = cm \<and> (\<forall>names. r \<noteq> Cb_data names)
       \<or> (\<exists>v. flos_store w cm v = (c1, r))"
    using assms m by (cases rm) (auto simp: flos_def split: if_splits)
  then show ?thesis
  proof
    assume "c1 = cm \<and> (\<forall>names. r \<noteq> Cb_data names)"
    then show ?thesis using rc new by auto
  next
    assume "\<exists>v. flos_store w cm v = (c1, r)"
    then obtain v where "flos_store w cm v = (c1, r)" by blast
    then have "refreshes c1 = refreshes cm \<and> sent c1 = sent cm \<and> floMap c1 \<noteq> None"
      by (rule flos_store_props)
    then show ?thesis using rc new by auto
  qed
qed

lemma getAlias_string_alias_stored:
  assumes "prototype m = DefaultProto"
      and "\<not> is_number (obj_get (own_props m) ''length'')"
      and "getAlias w m (Val (JStr s)) = Some (Val (JStr a))"
      and "a \<noteq> []"
  shows "JStr a \<in> snd ` set (own_props m)"
proof (cases "truthy_f (cache_get w m s)")
  case True
  then have g: "cache_get w m s = Val (JStr a)"
    using assms(3) by (simp add: getAlias_def key_of_string Let_def)
  show ?thesis
  proof (cases "map_of (own_props m) s")
    case None
    then have "cache_get w m s = object_prototype_get (Member Object_prototype) s"
      using assms(1) by (simp add: cache_get_def)
    then show ?thesis
      using g by (auto simp: object_prototype_get_def split: if_splits option.splits)
  next
    case (Some v)
    then have "held (Own s) v = Val (JStr a)"
      using g by (simp add: cache_get_def)
    then have "v = JStr a"
      by (cases v) auto
    then have "(s, JStr a) \<in> set (own_props m)"
      using Some by (simp add: map_of_SomeD)
    then show ?thesis by force
  qed
next
  case False
  then have "(if JStr s \<in> snd ` set (own_props m) then Val (JStr s) else Val JUndefined)
               = Val (JStr a)"
    using assms(3)
    by (simp add: getAlias_def key_of_string Let_def find_items_plain [OF assms(1) assms(2)]
          find_own_string)
  then show ?thesis
    by (auto split: if_splits)
qed

lemma getAlias_stored_alias_truthy:
  assumes "prototype m = DefaultProto"
      and "\<not> is_number (obj_get (own_props m) ''length'')"
      and "JStr a \<in> snd ` set (own_props m)"
      and "a \<noteq> []"
  shows "\<exists>found. getAlias w m (Val (JStr a)) = Some found \<and> truthy_f found"
proof (cases "truthy_f (cache_get w m a)")
  case True
  then show ?thesis
    by (simp add: getAlias_def key_of_string Let_def)
next
  case False
  then have "getAlias w m (Val (JStr a)) = Some (Val (JStr a))"
    using assms(3)
    by (simp add: getAlias_def key_of_string Let_def find_items_plain [OF assms(1) assms(2)]
          find_own_string)
  then show ?thesis
    using assms(4) by simp
qed

lemma invoke_resolved_no_refresh:
  assumes "getAlias w (cache_of c) flo = Some found" and "truthy_f found"
  shows "\<exists>c' out. invoke (Suc n) w c flo data force = Some (c', out)
           \<and> refreshes c' = refreshes c"
proof -
  have r: "resolve w c flo force = Some found"
    using assms by (simp add: resolve_def)
  note step = invoke_dispatches [OF r assms(2), of n data]
  show ?thesis
  proof (cases "replace_with ''/flo/:id/invoke'' '':id'' found")
    case None
    then have "invoke (Suc n) w c flo data force = Some (c, Uncaught ''TypeError'')"
      using step by simp
    then show ?thesis by simp
  next
    case (Some p)
    let ?res = "makeRequest w c \<lparr>opt_path = p, opt_method = ''POST''\<rparr> data"
    have "invoke (Suc n) w c flo data force = Some (fst ?res, snd ?res)"
      using step Some by simp
    moreover have "refreshes (fst ?res) = refreshes c"
      by (rule makeRequest_refreshes)
    ultimately show ?thesis by blast
  qed
qed

text \<open>
  On ordinary inputs \<^verbatim>\<open>invoke\<close> follows the policy of a single refresh. For a name that
  the cache does not resolve, the refresh is counted once; its error, when it reports
  one, is the result; a name that the new cache does not resolve ends in the error
  \<open>Flo not found\<close>; and when the new cache is a plain object without a number under
  \<^verbatim>\<open>length\<close> and resolves the name to an alias, a string that is not empty, the call of
  \<^verbatim>\<open>invoke\<close> with that alias resolves it again and dispatches, so that two levels of
  calls are enough and no second refresh happens.
\<close>

lemma invoke_single_refresh:
  assumes un: "resolve w c (Val (JStr s)) False = Some used" "\<not> truthy_f used"
      and f: "flos w c True = (c1, r)"
  shows "refreshes c1 = Suc (refreshes c)"
    and "\<And>e. r = Cb_error e \<Longrightarrow>
           invoke (Suc n) w c (Val (JStr s)) data False = Some (c1, Cb_error e)"
    and "\<And>names m found. r = Cb_data names \<Longrightarrow> floMap c1 = Some m \<Longrightarrow>
           getAlias w m (Val (JStr s)) = Some found \<Longrightarrow> \<not> truthy_f found \<Longrightarrow>
           invoke (Suc n) w c (Val (JStr s)) data False =
             Some (c1, Cb_error (ErrorObj ''Flo not found''))"
    and "\<And>names m a. r = Cb_data names \<Longrightarrow> floMap c1 = Some m \<Longrightarrow>
           prototype m = DefaultProto \<Longrightarrow> \<not> is_number (obj_get (own_props m) ''length'') \<Longrightarrow>
           getAlias w m (Val (JStr s)) = Some (Val (JStr a)) \<Longrightarrow> a \<noteq> [] \<Longrightarrow>
           \<exists>c' out. invoke (Suc (Suc n)) w c (Val (JStr s)) data False = Some (c', out)
             \<and> refreshes c' = Suc (refreshes c)"
proof -
  show rc: "refreshes c1 = Suc (refreshes c)"
    using flos_refresh_props [OF f] by simp
  show "invoke (Suc n) w c (Val (JStr s)) data False = Some (c1, Cb_error e)"
    if "r = Cb_error e" for e
    using invoke_refreshes [OF un, of n data] f that by simp
  show "invoke (Suc n) w c (Val (JStr s)) data False =
             Some (c1, Cb_error (ErrorObj ''Flo not found''))"
    if "r = Cb_data names" "floMap c1 = Some m" "getAlias w m (Val (JStr s)) = Some found"
       "\<not> truthy_f found" for names m found
    using invoke_refreshes [OF un, of n data] f that by simp
  show "\<exists>c' out. invoke (Suc (Suc n)) w c (Val (JStr s)) data False = Some (c', out)
             \<and> refreshes c' = Suc (refreshes c)"
    if h: "r = Cb_data names" "floMap c1 = Some m" "prototype m = DefaultProto"
       "\<not> is_number (obj_get (own_props m) ''length'')"
       "getAlias w m (Val (JStr s)) = Some (Val (JStr a))" "a \<noteq> []" for names m a
  proof -
    have "JStr a \<in> snd ` set (own_props m)"
      using getAlias_string_alias_stored [OF h(3) h(4) h(5) h(6)] .
    then obtain found where g: "getAlias w m (Val (JStr a)) = Some found" "truthy_f found"
      using getAlias_stored_alias_truthy [OF h(3) h(4) _ h(6), of w] by blast
    have co: "cache_of c1 = m"
      using h(2) by (simp add: cache_of_def)
    obtain c' out where i: "invoke (Suc n) w c1 (Val (JStr a)) data False = Some (c', out)"
        "refreshes c' = refreshes c1"
      using invoke_resolved_no_refresh [of w c1 "Val (JStr a)" found n data False] g co
      by auto
    have "invoke (Suc (Suc n)) w c (Val (JStr s)) data False
            = invoke (Suc n) w c1 (Val (JStr a)) data False"
      using invoke_refreshes [OF un, of "Suc n" data] f h(1) h(2) h(5) h(6) by simp
    then show ?thesis
      using i rc by simp
  qed
qed

text \<open>
  C2 says that \<^verbatim>\<open>invoke\<close> of a name that the cache does not resolve performs exactly one
  refresh: it fails with \<open>Flo not found\<close> when the name is still not resolved, it passes
  the error of a failed refresh on to the caller, and it never refreshes a second time.
  The code breaks this where the refresh fails with an empty body. The list call is
  answered with the empty string, which is not JSON, so the refresh has failed; but
  \<^verbatim>\<open>flos\<close> does not report it, and \<^verbatim>\<open>invoke\<close> goes on with the emptied cache: the
  caller gets the error \<open>Flo not found\<close>, or no answer at all when \<^verbatim>\<open>async.each\<close>
  throws, and never the error of the refresh. With a body that is not empty the error of
  the refresh reaches the caller.
\<close>

theorem invoke_refresh_failure_not_propagated:
  "JSON_parse (demo_world []) [] = None
   \<and> resolve (demo_world []) demo_client (Val (JStr ''billing'')) False = Some (Val JUndefined)
   \<and> map_option snd
        (invoke (Suc (Suc 0)) (demo_world []) demo_client (Val (JStr ''billing'')) (JObj []) False)
       = Some (Cb_error (ErrorObj ''Flo not found''))
   \<and> map_option snd
        (invoke (Suc (Suc 0)) ((demo_world [])\<lparr>each_other := (\<lambda>v. None)\<rparr>) demo_client
           (Val (JStr ''billing'')) (JObj []) False)
       = Some (Uncaught ''TypeError'')
   \<and> map_option snd
        (invoke (Suc (Suc 0)) (demo_world ''<html>'') demo_client (Val (JStr ''billing''))
           (JObj []) False)
       = Some (Cb_error (RawBody ''<html>''))"
  by code_simp

text \<open>
  Where the refresh succeeds, the call ends as the claim says: with the workflow listed,
  one list request and one invocation; with the workflow not listed, one list request and
  the error \<open>Flo not found\<close>.
\<close>

lemma invoke_refresh_examples:
  "map_option (\<lambda>r. (map req_path (sent (fst r)), refreshes (fst r)))
      (invoke (Suc (Suc 0)) (demo_world flos_json) demo_client (Val (JStr ''billing''))
         (JObj []) False)
     = Some ([''/account/flos'', ''/flo/az1/invoke''], 1)
   \<and> map_option (\<lambda>r. (map req_path (sent (fst r)), refreshes (fst r), snd r))
      (invoke (Suc (Suc 0)) (demo_world ''[]'') demo_client (Val (JStr ''missing''))
         (JObj []) False)
     = Some ([''/account/flos''], 1, Cb_error (ErrorObj ''Flo not found''))"
  by code_simp

text \<open>
  A second refresh happens where the first one resolves the name to a value that the
  lookup of the next call does not find again. Here the cache holds the empty alias under
  the name \<^verbatim>\<open>constructor\<close>, and the list call returns no workflow: after the first
  refresh the lookup returns the inherited function, the call of \<^verbatim>\<open>invoke\<close> with that
  function finds nothing and refreshes again.
\<close>

lemma invoke_second_refresh_example:
  "map_option (\<lambda>r. (map req_path (sent (fst r)), refreshes (fst r), snd r))
      (invoke (Suc (Suc (Suc 0))) (demo_world ''[]'')
         (demo_client\<lparr>floMap :=
            Some \<lparr>own_props = [(''constructor'', JStr [])], prototype = DefaultProto\<rparr>\<rparr>)
         (Val (JStr ''constructor'')) (JObj []) False)
     = Some ([''/account/flos'', ''/account/flos''], 2, Cb_error (ErrorObj ''Flo not found''))"
  by code_simp

end
